theory Spec2Isabelle
  imports Main
begin

section \<open>FHIR patient data finder (src/find_patients.py)\<close>

text \<open>
  The three functions of the scan are embedded: \<open>get_all_patients\<close>,
  \<open>check_patient_data\<close> and \<open>find_complete_patients\<close>. The only effect they have on
  the outside is \<open>requests.get\<close>, which is a parameter of the model. What they print is
  left out, as are \<open>print_results\<close> and the command-line entry point, which compute
  nothing the scan depends on.
\<close>

subsection \<open>Values and exceptions\<close>

text \<open>
  A decoded JSON value, as \<open>response.json()\<close> returns it: \<open>None\<close>, a bool, a number,
  a str, a list or a dict. A dict is an association list read with \<open>map_of\<close>. A float
  behaves like an int in every operation the program applies to a decoded value
  (membership test, subscript, \<open>len\<close> and iteration all raise \<open>TypeError\<close>), so one
  constructor stands for both.
\<close>

datatype json =
    JNull
  | JBool bool
  | JNum int
  | JStr string
  | JArr "json list"
  | JObj "(string \<times> json) list"

text \<open>The exceptions of class \<open>Exception\<close> that the program's statements can raise.\<close>

datatype py_exn = RequestException | HTTPError | JSONDecodeError | TypeError | KeyError

text \<open>Sequencing of statements that may raise: the first exception wins.\<close>

definition bind_exn :: "py_exn + 'a \<Rightarrow> ('a \<Rightarrow> py_exn + 'b) \<Rightarrow> py_exn + 'b" where
  "bind_exn m f = (case m of Inl e \<Rightarrow> Inl e | Inr x \<Rightarrow> f x)"

text \<open>\<open>a in b\<close> for two strs: \<open>a\<close> occurs in \<open>b\<close> as a contiguous piece.\<close>

fun is_substring :: "string \<Rightarrow> string \<Rightarrow> bool" where
  "is_substring xs [] = (xs = [])"
| "is_substring xs (y # ys) = (take (length xs) (y # ys) = xs \<or> is_substring xs ys)"

text \<open>\<open>k in d\<close> with a str \<open>k\<close>: key of a dict, element of a list, piece of a str.\<close>

fun py_contains :: "json \<Rightarrow> string \<Rightarrow> py_exn + bool" where
  "py_contains (JObj kvs) k = Inr (k \<in> set (map fst kvs))"
| "py_contains (JArr xs) k = Inr (JStr k \<in> set xs)"
| "py_contains (JStr s) k = Inr (is_substring k s)"
| "py_contains JNull k = Inl TypeError"
| "py_contains (JBool b) k = Inl TypeError"
| "py_contains (JNum n) k = Inl TypeError"

text \<open>\<open>d[k]\<close> with a str \<open>k\<close>: only a dict accepts a str subscript.\<close>

fun py_getitem :: "json \<Rightarrow> string \<Rightarrow> py_exn + json" where
  "py_getitem (JObj kvs) k = (case map_of kvs k of None \<Rightarrow> Inl KeyError | Some v \<Rightarrow> Inr v)"
| "py_getitem (JArr xs) k = Inl TypeError"
| "py_getitem (JStr s) k = Inl TypeError"
| "py_getitem JNull k = Inl TypeError"
| "py_getitem (JBool b) k = Inl TypeError"
| "py_getitem (JNum n) k = Inl TypeError"

fun py_len :: "json \<Rightarrow> py_exn + nat" where
  "py_len (JArr xs) = Inr (length xs)"
| "py_len (JStr s) = Inr (length s)"
| "py_len (JObj kvs) = Inr (length (remdups (map fst kvs)))"
| "py_len JNull = Inl TypeError"
| "py_len (JBool b) = Inl TypeError"
| "py_len (JNum n) = Inl TypeError"

text \<open>The elements a \<open>for\<close> loop visits: a dict yields its keys, a str its characters.\<close>

fun py_iter :: "json \<Rightarrow> py_exn + json list" where
  "py_iter (JArr xs) = Inr xs"
| "py_iter (JStr s) = Inr (map (\<lambda>c. JStr [c]) s)"
| "py_iter (JObj kvs) = Inr (map JStr (remdups (map fst kvs)))"
| "py_iter JNull = Inl TypeError"
| "py_iter (JBool b) = Inl TypeError"
| "py_iter (JNum n) = Inl TypeError"

subsection \<open>The remote service\<close>

text \<open>
  An f-string before it is rendered: literal text and interpolated values. Rendering is
  left to the transport, which receives the parts.
\<close>

datatype fpart = Lit string | Fmt json

type_synonym url = "fpart list"

record response =
  status_code :: int
  body :: "json option"

text \<open>
  The transport is the behaviour of \<open>requests.get\<close>: from a URL and the state of the
  outside world it raises or returns a response, and leaves a new state of the world.
  The program's side of it keeps the list of URLs requested so far.
\<close>

type_synonym 'w transport = "url \<Rightarrow> 'w \<Rightarrow> (py_exn + response) \<times> 'w"

record 'w net =
  world :: 'w
  calls :: "url list"

definition requests_get :: "'w transport \<Rightarrow> url \<Rightarrow> 'w net \<Rightarrow> (py_exn + response) \<times> 'w net" where
  "requests_get T u s =
     (case T u (world s) of (r, w') \<Rightarrow> (r, \<lparr>world = w', calls = calls s @ [u]\<rparr>))"

text \<open>\<open>response.raise_for_status()\<close> raises for the client and server error codes.\<close>

definition raise_for_status :: "response \<Rightarrow> py_exn + unit" where
  "raise_for_status r =
     (if 400 \<le> status_code r \<and> status_code r < 600 then Inl HTTPError else Inr ())"

text \<open>\<open>response.json()\<close> raises when the body does not decode.\<close>

definition response_json :: "response \<Rightarrow> py_exn + json" where
  "response_json r = (case body r of None \<Rightarrow> Inl JSONDecodeError | Some d \<Rightarrow> Inr d)"

definition FHIR_SERVER :: string where
  "FHIR_SERVER = ''https://r3.smarthealthit.org''"

subsection \<open>get_all_patients\<close>

definition patients_url :: "int \<Rightarrow> url" where
  "patients_url limit = [Fmt (JStr FHIR_SERVER), Lit ''/Patient?_count='', Fmt (JNum limit)]"

text \<open>The loop over \<open>data['entry']\<close>, appending \<open>entry['resource']['id']\<close>.\<close>

fun collect_ids :: "json list \<Rightarrow> json list \<Rightarrow> py_exn + json list" where
  "collect_ids [] patient_ids = Inr patient_ids"
| "collect_ids (entry # rest) patient_ids =
     bind_exn (py_getitem entry ''resource'') (\<lambda>resource.
     bind_exn (py_getitem resource ''id'') (\<lambda>i.
     collect_ids rest (patient_ids @ [i])))"

text \<open>What the statements after the request compute from the response.\<close>

definition patient_ids_of :: "response \<Rightarrow> py_exn + json list" where
  "patient_ids_of response =
     bind_exn (raise_for_status response) (\<lambda>_.
     bind_exn (response_json response) (\<lambda>data.
     bind_exn (py_contains data ''entry'') (\<lambda>has_entry.
       if has_entry then
         bind_exn (py_getitem data ''entry'') (\<lambda>entries.
         bind_exn (py_iter entries) (\<lambda>es. collect_ids es []))
       else Inr [])))"

text \<open>The body of the \<open>try\<close> block.\<close>

definition get_all_patients_try :: "'w transport \<Rightarrow> int \<Rightarrow> 'w net \<Rightarrow> (py_exn + json list) \<times> 'w net" where
  "get_all_patients_try T limit s =
     (case requests_get T (patients_url limit) s of
        (Inl e, s') \<Rightarrow> (Inl e, s')
      | (Inr response, s') \<Rightarrow> (patient_ids_of response, s'))"

text \<open>\<open>except Exception\<close>: every exception becomes the empty list.\<close>

definition get_all_patients :: "'w transport \<Rightarrow> int \<Rightarrow> 'w net \<Rightarrow> json list \<times> 'w net" where
  "get_all_patients T limit s =
     (case get_all_patients_try T limit s of
        (Inl e, s') \<Rightarrow> ([], s')
      | (Inr patient_ids, s') \<Rightarrow> (patient_ids, s'))"

subsection \<open>check_patient_data\<close>

record data_status =
  id_field :: json
  demographics :: bool
  blood_pressure :: nat
  weight :: bool
  height :: bool
  medications :: nat
  has_complete_data :: bool

definition patient_url :: "json \<Rightarrow> url" where
  "patient_url patient_id = [Fmt (JStr FHIR_SERVER), Lit ''/Patient/'', Fmt patient_id]"

definition bp_url :: "json \<Rightarrow> url" where
  "bp_url patient_id =
     [Fmt (JStr FHIR_SERVER), Lit ''/Observation?patient='', Fmt patient_id,
      Lit ''&code=55284-4&_count=50'']"

definition weight_url :: "json \<Rightarrow> url" where
  "weight_url patient_id =
     [Fmt (JStr FHIR_SERVER), Lit ''/Observation?patient='', Fmt patient_id,
      Lit ''&code=29463-7&_count=1'']"

definition height_url :: "json \<Rightarrow> url" where
  "height_url patient_id =
     [Fmt (JStr FHIR_SERVER), Lit ''/Observation?patient='', Fmt patient_id,
      Lit ''&code=8302-2&_count=1'']"

definition med_url :: "json \<Rightarrow> url" where
  "med_url patient_id =
     [Fmt (JStr FHIR_SERVER), Lit ''/MedicationRequest?patient='', Fmt patient_id,
      Lit ''&status=active'']"

text \<open>
  The statements that follow each request, as an update of \<open>data_status\<close>. Each of them
  writes the dictionary in its last statement only, so when one raises the dictionary is
  the one it started from.
\<close>

definition check_demographics :: "response \<Rightarrow> data_status \<Rightarrow> py_exn + data_status" where
  "check_demographics pt_response ds =
     (if status_code pt_response = 200 then
        bind_exn (response_json pt_response) (\<lambda>pt_data.
        bind_exn (py_contains pt_data ''name'') (\<lambda>has_name.
          if has_name then
            bind_exn (py_contains pt_data ''birthDate'') (\<lambda>has_birth.
              if has_birth then Inr (ds\<lparr>demographics := True\<rparr>) else Inr ds)
          else Inr ds))
      else Inr ds)"

definition check_blood_pressure :: "response \<Rightarrow> data_status \<Rightarrow> py_exn + data_status" where
  "check_blood_pressure bp_response ds =
     (if status_code bp_response = 200 then
        bind_exn (response_json bp_response) (\<lambda>bp_data.
        bind_exn (py_contains bp_data ''entry'') (\<lambda>has_entry.
          if has_entry then
            bind_exn (py_getitem bp_data ''entry'') (\<lambda>entries.
            bind_exn (py_len entries) (\<lambda>n. Inr (ds\<lparr>blood_pressure := n\<rparr>)))
          else Inr ds))
      else Inr ds)"

definition check_weight :: "response \<Rightarrow> data_status \<Rightarrow> py_exn + data_status" where
  "check_weight weight_response ds =
     (if status_code weight_response = 200 then
        bind_exn (response_json weight_response) (\<lambda>weight_data.
        bind_exn (py_contains weight_data ''entry'') (\<lambda>has_entry.
          if has_entry then
            bind_exn (py_getitem weight_data ''entry'') (\<lambda>entries.
            bind_exn (py_len entries) (\<lambda>n.
              if n > 0 then Inr (ds\<lparr>weight := True\<rparr>) else Inr ds))
          else Inr ds))
      else Inr ds)"

definition check_height :: "response \<Rightarrow> data_status \<Rightarrow> py_exn + data_status" where
  "check_height height_response ds =
     (if status_code height_response = 200 then
        bind_exn (response_json height_response) (\<lambda>height_data.
        bind_exn (py_contains height_data ''entry'') (\<lambda>has_entry.
          if has_entry then
            bind_exn (py_getitem height_data ''entry'') (\<lambda>entries.
            bind_exn (py_len entries) (\<lambda>n.
              if n > 0 then Inr (ds\<lparr>height := True\<rparr>) else Inr ds))
          else Inr ds))
      else Inr ds)"

definition check_medications :: "response \<Rightarrow> data_status \<Rightarrow> py_exn + data_status" where
  "check_medications med_response ds =
     (if status_code med_response = 200 then
        bind_exn (response_json med_response) (\<lambda>med_data.
        bind_exn (py_contains med_data ''entry'') (\<lambda>has_entry.
          if has_entry then
            bind_exn (py_getitem med_data ''entry'') (\<lambda>entries.
            bind_exn (py_len entries) (\<lambda>n. Inr (ds\<lparr>medications := n\<rparr>)))
          else Inr ds))
      else Inr ds)"

text \<open>
  The state inside the \<open>try\<close> block: the exception raised so far, if any, the dictionary
  and the network. One check is a request followed by its statements; after an
  exception nothing more of the block runs.
\<close>

type_synonym 'w try_state = "py_exn option \<times> data_status \<times> 'w net"

definition run_check ::
  "'w transport \<Rightarrow> url \<Rightarrow> (response \<Rightarrow> data_status \<Rightarrow> py_exn + data_status) \<Rightarrow>
   'w try_state \<Rightarrow> 'w try_state" where
  "run_check T u upd st =
     (case st of
        (Some e, ds, s) \<Rightarrow> (Some e, ds, s)
      | (None, ds, s) \<Rightarrow>
          (case requests_get T u s of
             (Inl e, s') \<Rightarrow> (Some e, ds, s')
           | (Inr r, s') \<Rightarrow>
               (case upd r ds of
                  Inl e \<Rightarrow> (Some e, ds, s')
                | Inr ds' \<Rightarrow> (None, ds', s'))))"

text \<open>The last two statements of the block, reached only when nothing raised.\<close>

definition determine_complete :: "'w try_state \<Rightarrow> 'w try_state" where
  "determine_complete st =
     (case st of
        (Some e, ds, s) \<Rightarrow> (Some e, ds, s)
      | (None, ds, s) \<Rightarrow>
          (None,
           ds\<lparr>has_complete_data :=
                 demographics ds \<and> blood_pressure ds > 0 \<and> weight ds \<and> height ds\<rparr>,
           s))"

definition initial_status :: "json \<Rightarrow> data_status" where
  "initial_status patient_id =
     \<lparr>id_field = patient_id, demographics = False, blood_pressure = 0, weight = False,
      height = False, medications = 0, has_complete_data = False\<rparr>"

definition check_patient_data_try :: "'w transport \<Rightarrow> json \<Rightarrow> 'w net \<Rightarrow> 'w try_state" where
  "check_patient_data_try T patient_id s =
     (let st0 = (None, initial_status patient_id, s);
          st1 = run_check T (patient_url patient_id) check_demographics st0;
          st2 = run_check T (bp_url patient_id) check_blood_pressure st1;
          st3 = run_check T (weight_url patient_id) check_weight st2;
          st4 = run_check T (height_url patient_id) check_height st3;
          st5 = run_check T (med_url patient_id) check_medications st4
      in determine_complete st5)"

definition check_patient_data ::
  "'w transport \<Rightarrow> json \<Rightarrow> 'w net \<Rightarrow> (bool \<times> data_status) \<times> 'w net" where
  "check_patient_data T patient_id s =
     (case check_patient_data_try T patient_id s of
        (exn, ds, s') \<Rightarrow> ((has_complete_data ds, ds), s'))"

subsection \<open>find_complete_patients\<close>

text \<open>The \<open>for\<close> loop, with its \<open>break\<close>.\<close>

fun scan_loop ::
  "'w transport \<Rightarrow> int \<Rightarrow> json list \<Rightarrow> data_status list \<Rightarrow> 'w net \<Rightarrow>
   data_status list \<times> 'w net" where
  "scan_loop T target_count [] complete_patients s = (complete_patients, s)"
| "scan_loop T target_count (patient_id # rest) complete_patients s =
     (case check_patient_data T patient_id s of
        ((has_complete, ds), s') \<Rightarrow>
          if has_complete then
            (if int (length (complete_patients @ [ds])) \<ge> target_count
             then (complete_patients @ [ds], s')
             else scan_loop T target_count rest (complete_patients @ [ds]) s')
          else scan_loop T target_count rest complete_patients s')"

definition find_complete_patients ::
  "'w transport \<Rightarrow> int \<Rightarrow> int \<Rightarrow> 'w net \<Rightarrow> data_status list \<times> 'w net" where
  "find_complete_patients T target_count search_limit s =
     (case get_all_patients T search_limit s of
        (patient_ids, s') \<Rightarrow> scan_loop T target_count patient_ids [] s')"

subsection \<open>Observing a run\<close>

text \<open>
  Every call of \<open>check_patient_data\<close> starts with the request for the patient resource
  and makes no other request of that form, so the candidates that were passed to it can
  be read off the list of requested URLs.
\<close>

fun evaluated_id :: "url \<Rightarrow> json option" where
  "evaluated_id [Fmt srv, Lit path, Fmt p] = (if path = ''/Patient/'' then Some p else None)"
| "evaluated_id u = None"

fun evaluations :: "url list \<Rightarrow> json list" where
  "evaluations [] = []"
| "evaluations (u # us) =
     (case evaluated_id u of None \<Rightarrow> evaluations us | Some p \<Rightarrow> p # evaluations us)"

text \<open>
  The scan that never stops early: every candidate is evaluated, in order, and the
  complete verdicts are kept.
\<close>

fun evaluate_all ::
  "'w transport \<Rightarrow> json list \<Rightarrow> 'w net \<Rightarrow> data_status list \<times> 'w net" where
  "evaluate_all T [] s = ([], s)"
| "evaluate_all T (p # ps) s =
     (case check_patient_data T p s of
        ((c, ds), s') \<Rightarrow>
          (case evaluate_all T ps s' of
             (vs, s'') \<Rightarrow> (if c then ds # vs else vs, s'')))"

text \<open>\<open>entry['resource']['id']\<close> for one entry of the patient list.\<close>

definition entry_id :: "json \<Rightarrow> py_exn + json" where
  "entry_id entry = bind_exn (py_getitem entry ''resource'') (\<lambda>resource. py_getitem resource ''id'')"

subsection \<open>The evaluator with isolated checks\<close>

text \<open>
  The evaluator as section 4.2 of the specification words it: each of the five checks is
  isolated, so a check that fails leaves its own field at the default and the next check
  runs all the same; \<open>has_complete_data\<close> is computed last, in every case.
\<close>

definition run_check_isolated ::
  "'w transport \<Rightarrow> url \<Rightarrow> (response \<Rightarrow> data_status \<Rightarrow> py_exn + data_status) \<Rightarrow>
   data_status \<times> 'w net \<Rightarrow> data_status \<times> 'w net" where
  "run_check_isolated T u upd st =
     (case st of
        (ds, s) \<Rightarrow>
          (case requests_get T u s of
             (Inl e, s') \<Rightarrow> (ds, s')
           | (Inr r, s') \<Rightarrow>
               (case upd r ds of
                  Inl e \<Rightarrow> (ds, s')
                | Inr ds' \<Rightarrow> (ds', s'))))"

definition check_patient_data_isolated ::
  "'w transport \<Rightarrow> json \<Rightarrow> 'w net \<Rightarrow> (bool \<times> data_status) \<times> 'w net" where
  "check_patient_data_isolated T patient_id s =
     (let st0 = (initial_status patient_id, s);
          st1 = run_check_isolated T (patient_url patient_id) check_demographics st0;
          st2 = run_check_isolated T (bp_url patient_id) check_blood_pressure st1;
          st3 = run_check_isolated T (weight_url patient_id) check_weight st2;
          st4 = run_check_isolated T (height_url patient_id) check_height st3;
          st5 = run_check_isolated T (med_url patient_id) check_medications st4
      in (case st5 of
            (ds, s') \<Rightarrow>
              let complete = (demographics ds \<and> blood_pressure ds > 0 \<and> weight ds \<and> height ds)
              in ((complete, ds\<lparr>has_complete_data := complete\<rparr>), s')))"

subsection \<open>The checks one by one\<close>

text \<open>The five checks in the order of the \<open>try\<close> block: the URL and the statements after it.\<close>

definition checks ::
  "json \<Rightarrow> (url \<times> (response \<Rightarrow> data_status \<Rightarrow> py_exn + data_status)) list" where
  "checks p =
     [(patient_url p, check_demographics), (bp_url p, check_blood_pressure),
      (weight_url p, check_weight), (height_url p, check_height),
      (med_url p, check_medications)]"

text \<open>
  Whether a check raises when it starts from a dictionary and a state of the network: its
  request raises (a transport failure), or the statements after the request do (a body
  that does not decode, or one of the wrong shape).
\<close>

definition check_raises ::
  "'w transport \<Rightarrow> url \<times> (response \<Rightarrow> data_status \<Rightarrow> py_exn + data_status) \<Rightarrow>
   data_status \<times> 'w net \<Rightarrow> bool" where
  "check_raises T c st =
     (case c of
        (u, upd) \<Rightarrow>
          (case st of
             (ds, s) \<Rightarrow>
               (case fst (T u (world s)) of
                  Inl e \<Rightarrow> True
                | Inr r \<Rightarrow> (case upd r ds of Inl e \<Rightarrow> True | Inr ds' \<Rightarrow> False))))"

text \<open>A list of checks, each run in isolation, one after the other.\<close>

fun isolated_prefix ::
  "'w transport \<Rightarrow> (url \<times> (response \<Rightarrow> data_status \<Rightarrow> py_exn + data_status)) list \<Rightarrow>
   data_status \<times> 'w net \<Rightarrow> data_status \<times> 'w net" where
  "isolated_prefix T [] st = st"
| "isolated_prefix T ((u, upd) # cs) st = isolated_prefix T cs (run_check_isolated T u upd st)"

text \<open>The dictionary and the network after the first \<open>k\<close> checks of a candidate.\<close>

definition after_checks :: "'w transport \<Rightarrow> json \<Rightarrow> nat \<Rightarrow> 'w net \<Rightarrow> data_status \<times> 'w net" where
  "after_checks T p k s = isolated_prefix T (take k (checks p)) (initial_status p, s)"

text \<open>The checks of the \<open>try\<close> block as a list: after an exception nothing more runs.\<close>

fun run_checks ::
  "'w transport \<Rightarrow> (url \<times> (response \<Rightarrow> data_status \<Rightarrow> py_exn + data_status)) list \<Rightarrow>
   'w try_state \<Rightarrow> 'w try_state" where
  "run_checks T [] st = st"
| "run_checks T ((u, upd) # cs) st = run_checks T cs (run_check T u upd st)"

subsection \<open>Example servers\<close>

definition ok :: "json \<Rightarrow> py_exn + response" where
  "ok d = Inr \<lparr>status_code = 200, body = Some d\<rparr>"

definition fhir_bundle :: "json list \<Rightarrow> json" where
  "fhir_bundle es = JObj [(''resourceType'', JStr ''Bundle''), (''entry'', JArr es)]"

definition patient_resource :: "json \<Rightarrow> json" where
  "patient_resource i =
     JObj [(''resourceType'', JStr ''Patient''), (''id'', i),
           (''name'', JArr [JObj [(''family'', JStr ''Doe'')]]),
           (''birthDate'', JStr ''1980-01-01'')]"

definition patient_entry :: "string \<Rightarrow> json" where
  "patient_entry i = JObj [(''resource'', patient_resource (JStr i))]"

definition some_entry :: json where
  "some_entry = JObj [(''resource'', JObj [(''status'', JStr ''final'')])]"

definition net0 :: "unit net" where
  "net0 = \<lparr>world = (), calls = []\<rparr>"

text \<open>
  Three patients, all with demographics; only \<open>p2\<close> has observations and medication
  requests. The number of patients listed does not depend on \<open>_count\<close>.
\<close>

fun demo_server :: "unit transport" where
  "demo_server [Fmt srv, Lit path, Fmt x] w =
     (if path = ''/Patient?_count='' then
        ok (fhir_bundle [patient_entry ''p1'', patient_entry ''p2'', patient_entry ''p3''])
      else ok (patient_resource x), w)"
| "demo_server [Fmt srv, Lit path, Fmt x, Lit q] w =
     (if x = JStr ''p2'' then ok (fhir_bundle [some_entry, some_entry]) else ok (fhir_bundle []), w)"
| "demo_server u w = (Inl RequestException, w)"

text \<open>Every patient has all the data, but the blood-pressure search cannot be reached.\<close>

fun bp_down_server :: "unit transport" where
  "bp_down_server [Fmt srv, Lit path, Fmt x] w = (ok (patient_resource x), w)"
| "bp_down_server [Fmt srv, Lit path, Fmt x, Lit q] w =
     (if q = ''&code=55284-4&_count=50'' then Inl RequestException
      else ok (fhir_bundle [some_entry]), w)"
| "bp_down_server u w = (Inl RequestException, w)"

text \<open>Every patient has all the data, but the medication search cannot be reached.\<close>

fun med_down_server :: "unit transport" where
  "med_down_server [Fmt srv, Lit path, Fmt x] w = (ok (patient_resource x), w)"
| "med_down_server [Fmt srv, Lit path, Fmt x, Lit q] w =
     (if path = ''/MedicationRequest?patient='' then Inl RequestException
      else ok (fhir_bundle [some_entry]), w)"
| "med_down_server u w = (Inl RequestException, w)"

text \<open>A server that answers the patient list with status 300 and a body.\<close>

definition choices_server :: "unit transport" where
  "choices_server u w =
     (Inr \<lparr>status_code = 300, body = Some (fhir_bundle [patient_entry ''p1''])\<rparr>, w)"

text \<open>A server that cannot be reached at all.\<close>

definition unreachable_server :: "unit transport" where
  "unreachable_server u w = (Inl RequestException, w)"

text \<open>The states and the verdict of a scan of \<open>demo_server\<close> with target 1.\<close>

definition demo_listed :: "unit net" where
  "demo_listed = \<lparr>world = (), calls = [patients_url 200]\<rparr>"

definition checked_urls :: "json \<Rightarrow> url list" where
  "checked_urls p = [patient_url p, bp_url p, weight_url p, height_url p, med_url p]"

definition demo_verdict_p2 :: data_status where
  "demo_verdict_p2 =
     \<lparr>id_field = JStr ''p2'', demographics = True, blood_pressure = 2, weight = True,
      height = True, medications = 2, has_complete_data = True\<rparr>"

definition demo_done :: "unit net" where
  "demo_done =
     \<lparr>world = (),
      calls = patients_url 200 # checked_urls (JStr ''p1'') @ checked_urls (JStr ''p2'')\<rparr>"

text \<open>
  Every patient has all the data, but the blood-pressure search is answered with status
  404.
\<close>

fun bp_missing_server :: "unit transport" where
  "bp_missing_server [Fmt srv, Lit path, Fmt x] w = (ok (patient_resource x), w)"
| "bp_missing_server [Fmt srv, Lit path, Fmt x, Lit q] w =
     (if q = ''&code=55284-4&_count=50''
      then Inr \<lparr>status_code = 404, body = Some (JObj [])\<rparr>
      else ok (fhir_bundle [some_entry]), w)"
| "bp_missing_server u w = (Inl RequestException, w)"

text \<open>A server that answers every request with status 404.\<close>

definition not_found_server :: "unit transport" where
  "not_found_server u w = (Inr \<lparr>status_code = 404, body = Some (JObj [])\<rparr>, w)"

text \<open>A server whose answers have status 200 and a body that does not decode.\<close>

definition garbled_server :: "unit transport" where
  "garbled_server u w = (Inr \<lparr>status_code = 200, body = None\<rparr>, w)"

section \<open>Properties\<close>

lemma requests_get_calls: "requests_get T u s = (r, s') \<Longrightarrow> calls s' = calls s @ [u]"
  by (auto simp: requests_get_def split: prod.splits)

lemma check_demographics_id: "check_demographics r ds = Inr ds' \<Longrightarrow> id_field ds' = id_field ds"
  by (auto simp: check_demographics_def bind_exn_def split: if_splits sum.splits)

lemma check_blood_pressure_id: "check_blood_pressure r ds = Inr ds' \<Longrightarrow> id_field ds' = id_field ds"
  by (auto simp: check_blood_pressure_def bind_exn_def split: if_splits sum.splits)

lemma check_weight_id: "check_weight r ds = Inr ds' \<Longrightarrow> id_field ds' = id_field ds"
  by (auto simp: check_weight_def bind_exn_def split: if_splits sum.splits)

lemma check_height_id: "check_height r ds = Inr ds' \<Longrightarrow> id_field ds' = id_field ds"
  by (auto simp: check_height_def bind_exn_def split: if_splits sum.splits)

lemma check_medications_id: "check_medications r ds = Inr ds' \<Longrightarrow> id_field ds' = id_field ds"
  by (auto simp: check_medications_def bind_exn_def split: if_splits sum.splits)

lemma run_check_id:
  assumes "\<And>r ds ds'. upd r ds = Inr ds' \<Longrightarrow> id_field ds' = id_field ds"
  shows "id_field (fst (snd (run_check T u upd st))) = id_field (fst (snd st))"
  using assms
  by (auto simp: run_check_def split: prod.splits option.splits sum.splits)

lemma determine_complete_id:
  "id_field (fst (snd (determine_complete st))) = id_field (fst (snd st))"
  by (auto simp: determine_complete_def split: prod.splits option.splits)

lemma check_patient_data_try_id:
  "id_field (fst (snd (check_patient_data_try T patient_id s))) = patient_id"
  by (simp add: check_patient_data_try_def Let_def determine_complete_id
      run_check_id check_demographics_id check_blood_pressure_id check_weight_id
      check_height_id check_medications_id initial_status_def)

text \<open>
  C10. For every candidate identifier and every behaviour of the remote fetches, the
  boolean that \<open>check_patient_data\<close> returns is the \<open>has_complete_data\<close> field of the
  verdict it returns, and the verdict's id is the identifier passed in.
\<close>
theorem check_patient_data_result:
  "fst (fst (check_patient_data T patient_id s))
     = has_complete_data (snd (fst (check_patient_data T patient_id s)))
   \<and> id_field (snd (fst (check_patient_data T patient_id s))) = patient_id"
  using check_patient_data_try_id [of T patient_id s]
  by (auto simp: check_patient_data_def split: prod.splits)

lemma scan_loop_length:
  "int (length acc) < tc \<Longrightarrow> int (length (fst (scan_loop T tc ids acc s))) \<le> tc"
proof (induction ids arbitrary: acc s)
  case Nil
  then show ?case by simp
next
  case (Cons p ps)
  obtain c ds s' where ev: "check_patient_data T p s = ((c, ds), s')"
    by (metis prod.exhaust)
  show ?case
  proof (cases "c \<and> int (length (acc @ [ds])) < tc")
    case True
    then show ?thesis using Cons.IH [of "acc @ [ds]" s'] ev by simp
  next
    case False
    then show ?thesis using Cons.IH [of acc s'] Cons.prems ev by auto
  qed
qed

text \<open>
  C4. With a target count of at least 1, \<open>find_complete_patients\<close> returns at most
  \<open>target_count\<close> verdicts, whatever candidates were enumerated.
\<close>
theorem find_complete_patients_at_most_target:
  "1 \<le> target_count \<Longrightarrow>
   int (length (fst (find_complete_patients T target_count search_limit s))) \<le> target_count"
  by (simp add: find_complete_patients_def scan_loop_length split: prod.splits)

lemma evaluations_append: "evaluations (us @ vs) = evaluations us @ evaluations vs"
  by (induction us) (auto split: option.splits)

lemma evaluated_id_urls:
  "evaluated_id (patient_url p) = Some p"
  "evaluated_id (bp_url p) = None"
  "evaluated_id (weight_url p) = None"
  "evaluated_id (height_url p) = None"
  "evaluated_id (med_url p) = None"
  "evaluated_id (patients_url n) = None"
  by (simp_all add: patient_url_def bp_url_def weight_url_def
      height_url_def med_url_def patients_url_def)

lemma run_check_evaluations:
  "run_check T u upd (None, ds, s) = (x, ds', s') \<Longrightarrow>
   evaluations (calls s') = evaluations (calls s) @ evaluations [u]"
  by (auto simp: run_check_def evaluations_append dest: requests_get_calls
      split: prod.splits sum.splits)

lemma run_check_evaluations_nil:
  "evaluated_id u = None \<Longrightarrow>
   evaluations (calls (snd (snd (run_check T u upd st)))) = evaluations (calls (snd (snd st)))"
  by (auto simp: run_check_def evaluations_append dest!: requests_get_calls
      split: prod.splits sum.splits option.splits)

lemma determine_complete_net: "snd (snd (determine_complete st)) = snd (snd st)"
  by (auto simp: determine_complete_def split: prod.splits option.splits)

lemma check_patient_data_try_evaluations:
  "evaluations (calls (snd (snd (check_patient_data_try T p s)))) = evaluations (calls s) @ [p]"
proof -
  obtain x ds s1 where st1:
    "run_check T (patient_url p) check_demographics (None, initial_status p, s) = (x, ds, s1)"
    by (metis prod.exhaust)
  have "evaluations (calls s1) = evaluations (calls s) @ [p]"
    using run_check_evaluations [OF st1] by (simp add: evaluated_id_urls)
  then show ?thesis
    by (simp add: check_patient_data_try_def Let_def determine_complete_net
        run_check_evaluations_nil evaluated_id_urls st1)
qed

lemma check_patient_data_evaluations:
  "check_patient_data T p s = (r, s') \<Longrightarrow> evaluations (calls s') = evaluations (calls s) @ [p]"
  using check_patient_data_try_evaluations [of T p s]
  by (auto simp: check_patient_data_def split: prod.splits)

lemma scan_loop_evaluations:
  "scan_loop T tc ids acc s = (found, s') \<Longrightarrow>
   \<exists>n\<le>length ids. evaluations (calls s') = evaluations (calls s) @ take n ids"
proof (induction ids arbitrary: acc s)
  case Nil
  then show ?case by simp
next
  case (Cons p ps)
  obtain c ds s1 where ev: "check_patient_data T p s = ((c, ds), s1)"
    by (metis prod.exhaust)
  have log: "evaluations (calls s1) = evaluations (calls s) @ [p]"
    using check_patient_data_evaluations [OF ev] .
  show ?case
  proof (cases "c \<and> tc \<le> int (length (acc @ [ds]))")
    case True
    then have "s' = s1" using Cons.prems ev by simp
    then have "evaluations (calls s') = evaluations (calls s) @ take 1 (p # ps)"
      using log by simp
    then show ?thesis by (intro exI [of _ 1]) simp
  next
    case False
    then obtain acc' where "scan_loop T tc ps acc' s1 = (found, s')"
      using Cons.prems ev by (auto split: if_splits)
    then obtain n where n: "n \<le> length ps"
      "evaluations (calls s') = evaluations (calls s1) @ take n ps"
      using Cons.IH by blast
    then have "evaluations (calls s') = evaluations (calls s) @ take (Suc n) (p # ps)"
      using log by simp
    then show ?thesis using n(1) by (intro exI [of _ "Suc n"]) simp
  qed
qed

lemma scan_loop_append:
  "scan_loop T tc pre acc s = (found, s') \<Longrightarrow> int (length acc) < tc \<Longrightarrow>
   tc \<le> int (length found) \<Longrightarrow> scan_loop T tc (pre @ post) acc s = (found, s')"
proof (induction pre arbitrary: acc s)
  case Nil
  then show ?case by simp
next
  case (Cons p ps)
  obtain c ds s1 where ev: "check_patient_data T p s = ((c, ds), s1)"
    by (metis prod.exhaust)
  show ?case
  proof (cases "c \<and> tc \<le> int (length (acc @ [ds]))")
    case True
    then show ?thesis using Cons.prems ev by simp
  next
    case False
    show ?thesis
    proof (cases c)
      case True
      with False have small: "int (length (acc @ [ds])) < tc" by simp
      have "scan_loop T tc ps (acc @ [ds]) s1 = (found, s')"
        using Cons.prems(1) ev True small by simp
      then have "scan_loop T tc (ps @ post) (acc @ [ds]) s1 = (found, s')"
        using Cons.IH small Cons.prems(3) by blast
      then show ?thesis using ev True small by simp
    next
      case False
      have "scan_loop T tc ps acc s1 = (found, s')"
        using Cons.prems(1) ev False by simp
      then have "scan_loop T tc (ps @ post) acc s1 = (found, s')"
        using Cons.IH Cons.prems(2,3) by blast
      then show ?thesis using ev False by simp
    qed
  qed
qed

text \<open>
  C3. Early exit. Let the enumerated sequence be \<open>pre @ post\<close> and let the scan of \<open>pre\<close>
  alone accumulate \<open>target_count\<close> verdicts. Then the scan of the whole sequence ends with
  the same result in the same state of the network (same world, same list of requests),
  and the candidates passed to the evaluator are the first \<open>n\<close> of \<open>pre\<close>: no candidate of
  \<open>post\<close> is evaluated.
\<close>
theorem early_exit:
  assumes "1 \<le> target_count"
    and "get_all_patients T search_limit s0 = (pre @ post, s1)"
    and "scan_loop T target_count pre [] s1 = (found, s2)"
    and "target_count \<le> int (length found)"
  shows "find_complete_patients T target_count search_limit s0 = (found, s2)
       \<and> (\<exists>n\<le>length pre. evaluations (calls s2) = evaluations (calls s1) @ take n pre)"
proof -
  have "scan_loop T target_count (pre @ post) [] s1 = (found, s2)"
    using scan_loop_append [OF assms(3) _ assms(4)] assms(1) by simp
  then have "find_complete_patients T target_count search_limit s0 = (found, s2)"
    using assms(2) by (simp add: find_complete_patients_def)
  then show ?thesis using scan_loop_evaluations [OF assms(3)] by simp
qed

lemma scan_loop_exhausted:
  "int (length acc) + int (length (fst (evaluate_all T ids s))) < tc \<Longrightarrow>
   scan_loop T tc ids acc s = (acc @ fst (evaluate_all T ids s), snd (evaluate_all T ids s))"
proof (induction ids arbitrary: acc s)
  case Nil
  then show ?case by simp
next
  case (Cons p ps)
  obtain c ds s1 where ev: "check_patient_data T p s = ((c, ds), s1)"
    by (metis prod.exhaust)
  obtain vs s2 where rest: "evaluate_all T ps s1 = (vs, s2)"
    by (metis prod.exhaust)
  show ?case
  proof (cases c)
    case True
    then have "int (length (acc @ [ds])) + int (length (fst (evaluate_all T ps s1))) < tc"
      using Cons.prems ev rest by simp
    then show ?thesis using Cons.IH [of "acc @ [ds]" s1] ev rest True by simp
  next
    case False
    then have "int (length acc) + int (length (fst (evaluate_all T ps s1))) < tc"
      using Cons.prems ev rest by simp
    then show ?thesis using Cons.IH [of acc s1] ev rest False by simp
  qed
qed

lemma evaluate_all_evaluations:
  "evaluations (calls (snd (evaluate_all T ids s))) = evaluations (calls s) @ ids"
proof (induction ids arbitrary: s)
  case Nil
  then show ?case by simp
next
  case (Cons p ps)
  obtain c ds s1 where ev: "check_patient_data T p s = ((c, ds), s1)"
    by (metis prod.exhaust)
  show ?case
    using Cons.IH [of s1] check_patient_data_evaluations [OF ev] ev
    by (auto split: prod.splits)
qed

lemma demo_enumerate:
  "get_all_patients demo_server n s =
     ([JStr ''p1'', JStr ''p2'', JStr ''p3''], \<lparr>world = (), calls = calls s @ [patients_url n]\<rparr>)"
  by (simp add: get_all_patients_def get_all_patients_try_def requests_get_def patients_url_def
      patient_ids_of_def raise_for_status_def response_json_def bind_exn_def ok_def
      fhir_bundle_def patient_entry_def patient_resource_def)

lemma demo_check_other:
  "x \<noteq> JStr ''p2'' \<Longrightarrow>
   check_patient_data demo_server x s =
     ((False, (initial_status x) \<lparr>demographics := True\<rparr>),
      \<lparr>world = (), calls = calls s @ checked_urls x\<rparr>)"
  by (simp add: check_patient_data_def check_patient_data_try_def run_check_def requests_get_def
      determine_complete_def initial_status_def checked_urls_def
      patient_url_def bp_url_def weight_url_def height_url_def med_url_def
      check_demographics_def check_blood_pressure_def check_weight_def check_height_def
      check_medications_def response_json_def bind_exn_def ok_def
      fhir_bundle_def patient_resource_def some_entry_def)

lemma demo_check_p2:
  "check_patient_data demo_server (JStr ''p2'') s =
     ((True, demo_verdict_p2), \<lparr>world = (), calls = calls s @ checked_urls (JStr ''p2'')\<rparr>)"
  by (simp add: check_patient_data_def check_patient_data_try_def run_check_def requests_get_def
      determine_complete_def initial_status_def checked_urls_def demo_verdict_p2_def
      patient_url_def bp_url_def weight_url_def height_url_def med_url_def
      check_demographics_def check_blood_pressure_def check_weight_def check_height_def
      check_medications_def response_json_def bind_exn_def ok_def
      fhir_bundle_def patient_resource_def some_entry_def)

lemma demo_listing: "get_all_patients demo_server 200 net0
    = ([JStr ''p1'', JStr ''p2''] @ [JStr ''p3''], demo_listed)"
  by (simp add: demo_enumerate net0_def demo_listed_def)

lemma demo_scan_two:
  "scan_loop demo_server 1 [JStr ''p1'', JStr ''p2''] [] demo_listed = ([demo_verdict_p2], demo_done)"
  by (simp add: demo_check_other demo_check_p2 demo_listed_def demo_done_def)

lemma evaluations_checked_urls: "evaluations (us @ checked_urls p) = evaluations us @ [p]"
  by (simp add: evaluations_append checked_urls_def evaluated_id_urls)

theorem early_exit_witness:
  "(1::int) \<le> 1
   \<and> get_all_patients demo_server 200 net0
       = ([JStr ''p1'', JStr ''p2''] @ [JStr ''p3''], demo_listed)
   \<and> scan_loop demo_server 1 [JStr ''p1'', JStr ''p2''] [] demo_listed
       = ([demo_verdict_p2], demo_done)
   \<and> (1::int) \<le> int (length [demo_verdict_p2])
   \<and> find_complete_patients demo_server 1 200 net0 = ([demo_verdict_p2], demo_done)
   \<and> (\<exists>n\<le>length [JStr ''p1'', JStr ''p2''].
         evaluations (calls demo_done)
           = evaluations (calls demo_listed) @ take n [JStr ''p1'', JStr ''p2''])"
  using early_exit [OF _ demo_listing demo_scan_two] demo_listing demo_scan_two
  by simp

theorem find_complete_patients_at_most_target_witness:
  "(1::int) \<le> 1 \<and> int (length (fst (find_complete_patients demo_server 1 200 net0))) \<le> 1"
  using find_complete_patients_at_most_target [of 1 demo_server 200 net0] by simp

lemma get_all_patients_calls:
  "get_all_patients T limit s = (ids, s') \<Longrightarrow> calls s' = calls s @ [patients_url limit]"
  by (auto simp: get_all_patients_def get_all_patients_try_def dest: requests_get_calls
      split: prod.splits sum.splits)

text \<open>
  C5. When the enumerator returns \<open>p1, p2, p3\<close>, the evaluator finds \<open>p1\<close> incomplete and
  \<open>p2\<close> complete, and the target count is 1, the result is exactly the verdict of \<open>p2\<close>,
  the scan ends in the state the evaluation of \<open>p2\<close> left, and the candidates evaluated
  are \<open>p1\<close> and \<open>p2\<close>: \<open>p3\<close> is never passed to the evaluator.
\<close>
theorem scan_p1_p2_p3:
  assumes "get_all_patients T search_limit s0 = ([JStr ''p1'', JStr ''p2'', JStr ''p3''], s1)"
    and "check_patient_data T (JStr ''p1'') s1 = ((False, v1), s2)"
    and "check_patient_data T (JStr ''p2'') s2 = ((True, v2), s3)"
  shows "find_complete_patients T 1 search_limit s0 = ([v2], s3)
       \<and> evaluations (calls s3) = evaluations (calls s0) @ [JStr ''p1'', JStr ''p2'']"
proof -
  have "evaluations (calls s1) = evaluations (calls s0)"
    using get_all_patients_calls [OF assms(1)]
    by (simp add: evaluations_append evaluated_id_urls)
  then have "evaluations (calls s3) = evaluations (calls s0) @ [JStr ''p1'', JStr ''p2'']"
    using check_patient_data_evaluations [OF assms(2)]
      check_patient_data_evaluations [OF assms(3)] by simp
  moreover have "find_complete_patients T 1 search_limit s0 = ([v2], s3)"
    using assms by (simp add: find_complete_patients_def)
  ultimately show ?thesis by simp
qed

theorem scan_p1_p2_p3_witness:
  "find_complete_patients demo_server 1 200 net0 = ([demo_verdict_p2], demo_done)
   \<and> evaluations (calls demo_done) = evaluations (calls net0) @ [JStr ''p1'', JStr ''p2'']
   \<and> evaluations (calls demo_done) = [JStr ''p1'', JStr ''p2'']"
proof -
  have a: "get_all_patients demo_server 200 net0
             = ([JStr ''p1'', JStr ''p2'', JStr ''p3''], demo_listed)"
    using demo_listing by simp
  have b: "check_patient_data demo_server (JStr ''p1'') demo_listed
             = ((False, (initial_status (JStr ''p1'')) \<lparr>demographics := True\<rparr>),
                \<lparr>world = (), calls = calls demo_listed @ checked_urls (JStr ''p1'')\<rparr>)"
    by (simp add: demo_check_other)
  have c: "check_patient_data demo_server (JStr ''p2'')
             \<lparr>world = (), calls = calls demo_listed @ checked_urls (JStr ''p1'')\<rparr>
             = ((True, demo_verdict_p2), demo_done)"
    by (simp add: demo_check_p2 demo_listed_def demo_done_def)
  show ?thesis using scan_p1_p2_p3 [OF a b c] by (simp add: net0_def)
qed

text \<open>
  C6. Exhausted search. When all the candidates together yield fewer than \<open>target_count\<close>
  complete verdicts, \<open>find_complete_patients\<close> returns those verdicts, in order, after
  evaluating every candidate once; when the enumerator returns no candidate the result is
  empty and the state is the one the enumeration left, so nothing was evaluated.
\<close>
theorem exhausted_search:
  assumes "get_all_patients T search_limit s0 = (ids, s1)"
  shows "(int (length (fst (evaluate_all T ids s1))) < target_count \<longrightarrow>
            find_complete_patients T target_count search_limit s0 = evaluate_all T ids s1
            \<and> evaluations (calls (snd (find_complete_patients T target_count search_limit s0)))
                = evaluations (calls s1) @ ids)
       \<and> (ids = [] \<longrightarrow> find_complete_patients T target_count search_limit s0 = ([], s1))"
proof -
  have "find_complete_patients T target_count search_limit s0 = evaluate_all T ids s1"
    if "int (length (fst (evaluate_all T ids s1))) < target_count"
    using scan_loop_exhausted [of "[]" T ids s1 target_count] that assms
    by (simp add: find_complete_patients_def)
  moreover have "find_complete_patients T target_count search_limit s0 = ([], s1)" if "ids = []"
    using that assms by (simp add: find_complete_patients_def)
  ultimately show ?thesis by (simp add: evaluate_all_evaluations)
qed

lemma unreachable_enumerate:
  "get_all_patients unreachable_server n s = ([], \<lparr>world = (), calls = calls s @ [patients_url n]\<rparr>)"
  by (simp add: get_all_patients_def get_all_patients_try_def requests_get_def
      unreachable_server_def)

theorem exhausted_search_witness:
  "find_complete_patients demo_server 5 200 net0
     = ([demo_verdict_p2],
        \<lparr>world = (), calls = calls demo_done @ checked_urls (JStr ''p3'')\<rparr>)
   \<and> evaluations (calls (snd (find_complete_patients demo_server 5 200 net0)))
       = [JStr ''p1'', JStr ''p2'', JStr ''p3'']
   \<and> find_complete_patients unreachable_server 5 200 net0
       = ([], \<lparr>world = (), calls = [patients_url 200]\<rparr>)"
proof -
  have a: "get_all_patients demo_server 200 net0
             = ([JStr ''p1'', JStr ''p2'', JStr ''p3''], demo_listed)"
    using demo_listing by simp
  have all: "evaluate_all demo_server [JStr ''p1'', JStr ''p2'', JStr ''p3''] demo_listed
             = ([demo_verdict_p2],
                \<lparr>world = (), calls = calls demo_done @ checked_urls (JStr ''p3'')\<rparr>)"
    by (simp add: demo_check_other demo_check_p2 demo_listed_def demo_done_def)
  have b: "get_all_patients unreachable_server 200 net0
             = ([], \<lparr>world = (), calls = [patients_url 200]\<rparr>)"
    by (simp add: unreachable_enumerate net0_def)
  have small:
    "int (length (fst (evaluate_all demo_server [JStr ''p1'', JStr ''p2'', JStr ''p3''] demo_listed))) < 5"
    unfolding all by simp
  have listed: "evaluations (calls demo_listed) = []"
    by (simp add: demo_listed_def evaluated_id_urls)
  have "find_complete_patients demo_server 5 200 net0
          = ([demo_verdict_p2],
             \<lparr>world = (), calls = calls demo_done @ checked_urls (JStr ''p3'')\<rparr>)
        \<and> evaluations (calls (snd (find_complete_patients demo_server 5 200 net0)))
            = evaluations (calls demo_listed) @ [JStr ''p1'', JStr ''p2'', JStr ''p3'']"
    using exhausted_search [OF a, of 5] small unfolding all by blast
  moreover have "find_complete_patients unreachable_server 5 200 net0
          = ([], \<lparr>world = (), calls = [patients_url 200]\<rparr>)"
    using exhausted_search [OF b, of 5] by simp
  ultimately show ?thesis unfolding listed append_Nil by blast
qed

theorem check_patient_data_result_witness:
  "fst (fst (check_patient_data demo_server (JStr ''p2'') net0))
     = has_complete_data (snd (fst (check_patient_data demo_server (JStr ''p2'') net0)))
   \<and> id_field (snd (fst (check_patient_data demo_server (JStr ''p2'') net0))) = JStr ''p2''"
  using check_patient_data_result [of demo_server "JStr ''p2''" net0] by simp

lemma check_demographics_cases:
  "check_demographics r ds = Inr ds' \<Longrightarrow> ds' = ds \<or> ds' = ds\<lparr>demographics := True\<rparr>"
  by (auto simp: check_demographics_def bind_exn_def split: if_splits sum.splits)

lemma check_blood_pressure_cases:
  "check_blood_pressure r ds = Inr ds' \<Longrightarrow> ds' = ds \<or> (\<exists>n. ds' = ds\<lparr>blood_pressure := n\<rparr>)"
  by (auto simp: check_blood_pressure_def bind_exn_def split: if_splits sum.splits)

lemma check_weight_cases:
  "check_weight r ds = Inr ds' \<Longrightarrow> ds' = ds \<or> ds' = ds\<lparr>weight := True\<rparr>"
  by (auto simp: check_weight_def bind_exn_def split: if_splits sum.splits)

lemma check_height_cases:
  "check_height r ds = Inr ds' \<Longrightarrow> ds' = ds \<or> ds' = ds\<lparr>height := True\<rparr>"
  by (auto simp: check_height_def bind_exn_def split: if_splits sum.splits)

lemma check_medications_cases:
  "check_medications r ds = Inr ds' \<Longrightarrow> ds' = ds \<or> (\<exists>n. ds' = ds\<lparr>medications := n\<rparr>)"
  by (auto simp: check_medications_def bind_exn_def split: if_splits sum.splits)

lemma run_check_keeps:
  assumes "\<And>r ds ds'. upd r ds = Inr ds' \<Longrightarrow> f ds' = f ds"
  shows "f (fst (snd (run_check T u upd st))) = f (fst (snd st))"
  using assms
  by (auto simp: run_check_def split: prod.splits option.splits sum.splits)

lemma run_check_raised: "run_check T u upd (Some e, ds, s) = (Some e, ds, s)"
  by (simp add: run_check_def)

lemma run_check_None:
  "run_check T u upd (x, ds, s) = (None, ds', s') \<Longrightarrow>
   x = None \<and> run_check_isolated T u upd (ds, s) = (ds', s')"
  by (auto simp: run_check_def run_check_isolated_def split: prod.splits option.splits sum.splits)

lemma keeps_complete:
  "check_demographics r ds = Inr ds' \<Longrightarrow> has_complete_data ds' = has_complete_data ds"
  "check_blood_pressure r ds = Inr ds' \<Longrightarrow> has_complete_data ds' = has_complete_data ds"
  "check_weight r ds = Inr ds' \<Longrightarrow> has_complete_data ds' = has_complete_data ds"
  "check_height r ds = Inr ds' \<Longrightarrow> has_complete_data ds' = has_complete_data ds"
  "check_medications r ds = Inr ds' \<Longrightarrow> has_complete_data ds' = has_complete_data ds"
  by (auto dest: check_demographics_cases check_blood_pressure_cases check_weight_cases
      check_height_cases check_medications_cases)

lemma checks_not_complete:
  "\<not> has_complete_data (fst (snd
      (run_check T (med_url p) check_medications
      (run_check T (height_url p) check_height
      (run_check T (weight_url p) check_weight
      (run_check T (bp_url p) check_blood_pressure
      (run_check T (patient_url p) check_demographics (None, initial_status p, s))))))))"
  by (simp add: run_check_keeps [where f = has_complete_data] keeps_complete initial_status_def)

text \<open>
  C2, as the code has it. The verdict \<open>v\<close> that \<open>check_patient_data\<close> returns has
  \<open>has_complete_data\<close> exactly when no statement of the \<open>try\<close> block raised and
  demographics, a positive blood-pressure count, weight and height are all present. The
  medication count does not occur in the condition; an exception anywhere in the block,
  the medication check included, leaves \<open>has_complete_data\<close> false.
\<close>
theorem has_complete_data_iff:
  assumes "check_patient_data_try T patient_id s = (exn, v, s')"
  shows "check_patient_data T patient_id s = ((has_complete_data v, v), s')
       \<and> has_complete_data v
           = (exn = None \<and> demographics v \<and> 0 < blood_pressure v \<and> weight v \<and> height v)"
proof -
  obtain x ds s5 where st5:
    "run_check T (med_url patient_id) check_medications
      (run_check T (height_url patient_id) check_height
      (run_check T (weight_url patient_id) check_weight
      (run_check T (bp_url patient_id) check_blood_pressure
      (run_check T (patient_url patient_id) check_demographics
         (None, initial_status patient_id, s))))) = (x, ds, s5)"
    by (metis prod.exhaust)
  have nc: "\<not> has_complete_data ds"
    using checks_not_complete [of T patient_id s] st5 by simp
  have fin: "determine_complete (x, ds, s5) = (exn, v, s')"
    using assms st5 by (simp add: check_patient_data_try_def Let_def)
  have "has_complete_data v
      = (exn = None \<and> demographics v \<and> 0 < blood_pressure v \<and> weight v \<and> height v)"
  proof (cases x)
    case None
    then show ?thesis using fin by (auto simp: determine_complete_def)
  next
    case (Some e)
    then show ?thesis using fin nc by (auto simp: determine_complete_def)
  qed
  then show ?thesis using assms by (simp add: check_patient_data_def)
qed

lemma med_down_check:
  "check_patient_data_try med_down_server (JStr ''p1'') net0 =
     (Some RequestException,
      \<lparr>id_field = JStr ''p1'', demographics = True, blood_pressure = 1, weight = True,
       height = True, medications = 0, has_complete_data = False\<rparr>,
      \<lparr>world = (), calls = checked_urls (JStr ''p1'')\<rparr>)"
  by (simp add: check_patient_data_try_def run_check_def requests_get_def
      determine_complete_def initial_status_def checked_urls_def net0_def
      patient_url_def bp_url_def weight_url_def height_url_def med_url_def
      check_demographics_def check_blood_pressure_def check_weight_def check_height_def
      check_medications_def response_json_def bind_exn_def ok_def
      fhir_bundle_def patient_resource_def some_entry_def)

text \<open>
  C2 as stated fails: when the medication request raises after the four required checks
  found their data, the verdict has all four fields set and \<open>has_complete_data\<close> false.
\<close>
theorem has_complete_data_counterexample:
  "check_patient_data med_down_server (JStr ''p1'') net0 =
     ((False,
       \<lparr>id_field = JStr ''p1'', demographics = True, blood_pressure = 1, weight = True,
        height = True, medications = 0, has_complete_data = False\<rparr>),
      \<lparr>world = (), calls = checked_urls (JStr ''p1'')\<rparr>)
   \<and> has_complete_data (snd (fst (check_patient_data med_down_server (JStr ''p1'') net0)))
     \<noteq> (demographics (snd (fst (check_patient_data med_down_server (JStr ''p1'') net0)))
        \<and> 0 < blood_pressure (snd (fst (check_patient_data med_down_server (JStr ''p1'') net0)))
        \<and> weight (snd (fst (check_patient_data med_down_server (JStr ''p1'') net0)))
        \<and> height (snd (fst (check_patient_data med_down_server (JStr ''p1'') net0))))"
  by (simp add: check_patient_data_def med_down_check)

theorem has_complete_data_iff_witness:
  "check_patient_data med_down_server (JStr ''p1'') net0 =
     ((False,
       \<lparr>id_field = JStr ''p1'', demographics = True, blood_pressure = 1, weight = True,
        height = True, medications = 0, has_complete_data = False\<rparr>),
      \<lparr>world = (), calls = checked_urls (JStr ''p1'')\<rparr>)
   \<and> check_patient_data demo_server (JStr ''p2'') net0 =
     ((True, demo_verdict_p2), \<lparr>world = (), calls = checked_urls (JStr ''p2'')\<rparr>)"
proof -
  have demo: "check_patient_data_try demo_server (JStr ''p2'') net0 =
     (None, demo_verdict_p2, \<lparr>world = (), calls = checked_urls (JStr ''p2'')\<rparr>)"
    by (simp add: check_patient_data_try_def run_check_def requests_get_def
      determine_complete_def initial_status_def checked_urls_def net0_def demo_verdict_p2_def
      patient_url_def bp_url_def weight_url_def height_url_def med_url_def
      check_demographics_def check_blood_pressure_def check_weight_def check_height_def
      check_medications_def response_json_def bind_exn_def ok_def
      fhir_bundle_def patient_resource_def some_entry_def)
  show ?thesis
    using has_complete_data_iff [OF med_down_check] has_complete_data_iff [OF demo]
    by (simp add: demo_verdict_p2_def)
qed

lemma determine_complete_None:
  "determine_complete (x, ds, s) = (None, v, s') \<Longrightarrow>
   x = None \<and> s' = s
   \<and> v = ds\<lparr>has_complete_data :=
              demographics ds \<and> blood_pressure ds > 0 \<and> weight ds \<and> height ds\<rparr>"
  by (auto simp: determine_complete_def split: option.splits)

lemma try_None_isolated:
  assumes "check_patient_data_try T p s = (None, v, s')"
  shows "check_patient_data_isolated T p s = ((has_complete_data v, v), s')"
proof -
  obtain x1 d1 s1 where a1:
    "run_check T (patient_url p) check_demographics (None, initial_status p, s) = (x1, d1, s1)"
    by (metis prod.exhaust)
  obtain x2 d2 s2 where a2:
    "run_check T (bp_url p) check_blood_pressure (x1, d1, s1) = (x2, d2, s2)"
    by (metis prod.exhaust)
  obtain x3 d3 s3 where a3:
    "run_check T (weight_url p) check_weight (x2, d2, s2) = (x3, d3, s3)"
    by (metis prod.exhaust)
  obtain x4 d4 s4 where a4:
    "run_check T (height_url p) check_height (x3, d3, s3) = (x4, d4, s4)"
    by (metis prod.exhaust)
  obtain x5 d5 s5 where a5:
    "run_check T (med_url p) check_medications (x4, d4, s4) = (x5, d5, s5)"
    by (metis prod.exhaust)
  have "determine_complete (x5, d5, s5) = (None, v, s')"
    using assms a1 a2 a3 a4 a5 by (simp add: check_patient_data_try_def Let_def)
  from determine_complete_None [OF this]
  have x5: "x5 = None" and s': "s' = s5"
    and v: "v = d5\<lparr>has_complete_data :=
                  demographics d5 \<and> blood_pressure d5 > 0 \<and> weight d5 \<and> height d5\<rparr>"
    by simp_all
  have i5: "x4 = None \<and> run_check_isolated T (med_url p) check_medications (d4, s4) = (d5, s5)"
    using run_check_None a5 x5 by blast
  have i4: "x3 = None \<and> run_check_isolated T (height_url p) check_height (d3, s3) = (d4, s4)"
    using run_check_None a4 i5 by blast
  have i3: "x2 = None \<and> run_check_isolated T (weight_url p) check_weight (d2, s2) = (d3, s3)"
    using run_check_None a3 i4 by blast
  have i2: "x1 = None \<and> run_check_isolated T (bp_url p) check_blood_pressure (d1, s1) = (d2, s2)"
    using run_check_None a2 i3 by blast
  have i1: "run_check_isolated T (patient_url p) check_demographics (initial_status p, s) = (d1, s1)"
    using run_check_None a1 i2 by blast
  show ?thesis
    by (simp add: check_patient_data_isolated_def Let_def i1 i2 i3 i4 i5 v s')
qed

lemma not_200_skips:
  "status_code r \<noteq> 200 \<Longrightarrow>
   check_demographics r ds = Inr ds \<and> check_blood_pressure r ds = Inr ds
   \<and> check_weight r ds = Inr ds \<and> check_height r ds = Inr ds
   \<and> check_medications r ds = Inr ds"
  by (simp add: check_demographics_def check_blood_pressure_def check_weight_def
      check_height_def check_medications_def)

lemma run_check_demographics_cases:
  "run_check T u check_demographics (None, ds, s) = (x, ds1, s1) \<Longrightarrow>
   ds1 = ds \<or> ds1 = ds\<lparr>demographics := True\<rparr>"
  by (auto simp: run_check_def split: prod.splits sum.splits dest: check_demographics_cases)

lemma bp_raise_aborts:
  assumes "run_check T (patient_url p) check_demographics (None, initial_status p, s)
             = (None, ds1, s1)"
    and "fst (T (bp_url p) (world s1)) = Inl e"
  shows "check_patient_data T p s
           = ((False, ds1),
              \<lparr>world = snd (T (bp_url p) (world s1)), calls = calls s1 @ [bp_url p]\<rparr>)
         \<and> blood_pressure ds1 = 0 \<and> \<not> weight ds1 \<and> \<not> height ds1
         \<and> medications ds1 = 0 \<and> \<not> has_complete_data ds1"
proof -
  have fields: "blood_pressure ds1 = 0 \<and> \<not> weight ds1 \<and> \<not> height ds1
         \<and> medications ds1 = 0 \<and> \<not> has_complete_data ds1"
    using run_check_demographics_cases [OF assms(1)] by (auto simp: initial_status_def)
  have "run_check T (bp_url p) check_blood_pressure (None, ds1, s1)
          = (Some e, ds1,
             \<lparr>world = snd (T (bp_url p) (world s1)), calls = calls s1 @ [bp_url p]\<rparr>)"
    using assms(2) by (auto simp: run_check_def requests_get_def split: prod.splits)
  then have "check_patient_data_try T p s
          = (Some e, ds1,
             \<lparr>world = snd (T (bp_url p) (world s1)), calls = calls s1 @ [bp_url p]\<rparr>)"
    using assms(1)
    by (simp add: check_patient_data_try_def Let_def run_check_raised determine_complete_def)
  then show ?thesis using fields by (simp add: check_patient_data_def)
qed

lemma run_check_not_raises:
  "\<not> check_raises T (u, upd) (ds, s) \<Longrightarrow>
   run_check T u upd (None, ds, s) = (None, run_check_isolated T u upd (ds, s))"
  by (auto simp: check_raises_def run_check_def run_check_isolated_def requests_get_def
      split: prod.splits sum.splits)

lemma run_check_raises:
  "check_raises T (u, upd) (ds, s) \<Longrightarrow>
   \<exists>e. run_check T u upd (None, ds, s) = (Some e, ds, snd (run_check_isolated T u upd (ds, s)))"
  by (auto simp: check_raises_def run_check_def run_check_isolated_def requests_get_def
      split: prod.splits sum.splits)

lemma run_checks_raised: "run_checks T cs (Some e, ds, s) = (Some e, ds, s)"
  by (induction cs) (auto simp: run_check_raised)

lemma run_checks_abort:
  assumes "k < length cs"
    and "\<forall>j<k. \<not> check_raises T (cs ! j) (isolated_prefix T (take j cs) st)"
    and "check_raises T (cs ! k) (isolated_prefix T (take k cs) st)"
  shows "\<exists>e. run_checks T cs (None, st)
           = (Some e, fst (isolated_prefix T (take k cs) st),
              snd (isolated_prefix T (take (Suc k) cs) st))"
  using assms
proof (induction cs arbitrary: k st)
  case Nil
  then show ?case by simp
next
  case (Cons c cs)
  obtain u upd where c: "c = (u, upd)" by (cases c) auto
  obtain ds s where st: "st = (ds, s)" by (cases st) auto
  show ?case
  proof (cases k)
    case 0
    then have "check_raises T (u, upd) (ds, s)" using Cons.prems(3) c st by simp
    from run_check_raises [OF this] obtain e where
      "run_check T u upd (None, ds, s) = (Some e, ds, snd (run_check_isolated T u upd (ds, s)))"
      by blast
    then show ?thesis using 0 c st by (simp add: run_checks_raised)
  next
    case (Suc k')
    have "\<not> check_raises T (u, upd) (ds, s)" using Cons.prems(2) Suc c st by force
    then have step: "run_check T u upd (None, ds, s) = (None, run_check_isolated T u upd (ds, s))"
      by (rule run_check_not_raises)
    let ?st' = "run_check_isolated T u upd (ds, s)"
    have a: "k' < length cs" using Cons.prems(1) Suc by simp
    have b: "\<forall>j<k'. \<not> check_raises T (cs ! j) (isolated_prefix T (take j cs) ?st')"
    proof (intro allI impI)
      fix j assume "j < k'"
      then have "Suc j < k" using Suc by simp
      then have "\<not> check_raises T ((c # cs) ! Suc j) (isolated_prefix T (take (Suc j) (c # cs)) st)"
        using Cons.prems(2) by blast
      then show "\<not> check_raises T (cs ! j) (isolated_prefix T (take j cs) ?st')"
        using c st by simp
    qed
    have d: "check_raises T (cs ! k') (isolated_prefix T (take k' cs) ?st')"
      using Cons.prems(3) Suc c st by simp
    from Cons.IH [OF a b d] obtain e where
      "run_checks T cs (None, ?st')
         = (Some e, fst (isolated_prefix T (take k' cs) ?st'),
            snd (isolated_prefix T (take (Suc k') cs) ?st'))"
      by blast
    then show ?thesis using Suc c st step by simp
  qed
qed

lemma run_checks_none:
  assumes "\<forall>j<length cs. \<not> check_raises T (cs ! j) (isolated_prefix T (take j cs) st)"
  shows "run_checks T cs (None, st) = (None, isolated_prefix T cs st)"
  using assms
proof (induction cs arbitrary: st)
  case Nil
  then show ?case by simp
next
  case (Cons c cs)
  obtain u upd where c: "c = (u, upd)" by (cases c) auto
  obtain ds s where st: "st = (ds, s)" by (cases st) auto
  have "\<not> check_raises T (u, upd) (ds, s)" using Cons.prems c st by force
  then have step: "run_check T u upd (None, ds, s) = (None, run_check_isolated T u upd (ds, s))"
    by (rule run_check_not_raises)
  let ?st' = "run_check_isolated T u upd (ds, s)"
  have b: "\<forall>j<length cs. \<not> check_raises T (cs ! j) (isolated_prefix T (take j cs) ?st')"
  proof (intro allI impI)
    fix j assume "j < length cs"
    then have "Suc j < length (c # cs)" by simp
    then have "\<not> check_raises T ((c # cs) ! Suc j) (isolated_prefix T (take (Suc j) (c # cs)) st)"
      using Cons.prems by blast
    then show "\<not> check_raises T (cs ! j) (isolated_prefix T (take j cs) ?st')"
      using c st by simp
  qed
  show ?case using Cons.IH [OF b] c st step by simp
qed

lemma try_as_list:
  "check_patient_data_try T p s
     = determine_complete (run_checks T (checks p) (None, initial_status p, s))"
  by (simp add: check_patient_data_try_def Let_def checks_def)

lemma isolated_as_list:
  "check_patient_data_isolated T p s
     = (case isolated_prefix T (checks p) (initial_status p, s) of
          (ds, s') \<Rightarrow>
            ((demographics ds \<and> blood_pressure ds > 0 \<and> weight ds \<and> height ds,
              ds\<lparr>has_complete_data :=
                    demographics ds \<and> blood_pressure ds > 0 \<and> weight ds \<and> height ds\<rparr>), s'))"
  by (simp add: check_patient_data_isolated_def Let_def checks_def)

lemma run_check_isolated_calls:
  "calls (snd (run_check_isolated T u upd (ds, s))) = calls s @ [u]"
  by (auto simp: run_check_isolated_def requests_get_def split: prod.splits sum.splits)

lemma isolated_prefix_calls:
  "calls (snd (isolated_prefix T cs st)) = calls (snd st) @ map fst cs"
proof (induction cs arbitrary: st)
  case Nil
  then show ?case by simp
next
  case (Cons c cs)
  obtain u upd where c: "c = (u, upd)" by (cases c) auto
  obtain ds s where st: "st = (ds, s)" by (cases st) auto
  show ?case using Cons.IH [of "run_check_isolated T u upd (ds, s)"] c st
    by (simp add: run_check_isolated_calls)
qed

lemma run_check_isolated_keeps:
  assumes "\<And>r ds ds'. upd r ds = Inr ds' \<Longrightarrow> f ds' = f ds"
  shows "f (fst (run_check_isolated T u upd st)) = f (fst st)"
  using assms
  by (auto simp: run_check_isolated_def split: prod.splits sum.splits)

lemma keeps_fields:
  "check_demographics r ds = Inr ds' \<Longrightarrow>
     blood_pressure ds' = blood_pressure ds \<and> weight ds' = weight ds \<and> height ds' = height ds
     \<and> medications ds' = medications ds"
  "check_blood_pressure r ds = Inr ds' \<Longrightarrow>
     weight ds' = weight ds \<and> height ds' = height ds \<and> medications ds' = medications ds"
  "check_weight r ds = Inr ds' \<Longrightarrow> height ds' = height ds \<and> medications ds' = medications ds"
  "check_height r ds = Inr ds' \<Longrightarrow> medications ds' = medications ds"
  by (auto dest: check_demographics_cases check_blood_pressure_cases check_weight_cases
      check_height_cases)

lemma small_cases:
  "k < 5 \<Longrightarrow> k = 0 \<or> k = Suc 0 \<or> k = Suc (Suc 0) \<or> k = Suc (Suc (Suc 0))
     \<or> k = Suc (Suc (Suc (Suc 0)))"
  by arith

lemma after_checks_defaults:
  assumes "k < 5"
  shows "(k \<le> 0 \<longrightarrow> \<not> demographics (fst (after_checks T p k s)))
       \<and> (k \<le> 1 \<longrightarrow> blood_pressure (fst (after_checks T p k s)) = 0)
       \<and> (k \<le> 2 \<longrightarrow> \<not> weight (fst (after_checks T p k s)))
       \<and> (k \<le> 3 \<longrightarrow> \<not> height (fst (after_checks T p k s)))
       \<and> medications (fst (after_checks T p k s)) = 0
       \<and> \<not> has_complete_data (fst (after_checks T p k s))"
proof -
  have bp: "blood_pressure (fst (run_check_isolated T u check_demographics st))
              = blood_pressure (fst st)" for u st
    by (rule run_check_isolated_keeps) (simp add: keeps_fields)
  have w1: "weight (fst (run_check_isolated T u check_demographics st)) = weight (fst st)" for u st
    by (rule run_check_isolated_keeps) (simp add: keeps_fields)
  have w2: "weight (fst (run_check_isolated T u check_blood_pressure st)) = weight (fst st)" for u st
    by (rule run_check_isolated_keeps) (simp add: keeps_fields)
  have h1: "height (fst (run_check_isolated T u check_demographics st)) = height (fst st)" for u st
    by (rule run_check_isolated_keeps) (simp add: keeps_fields)
  have h2: "height (fst (run_check_isolated T u check_blood_pressure st)) = height (fst st)" for u st
    by (rule run_check_isolated_keeps) (simp add: keeps_fields)
  have h3: "height (fst (run_check_isolated T u check_weight st)) = height (fst st)" for u st
    by (rule run_check_isolated_keeps) (simp add: keeps_fields)
  have m1: "medications (fst (run_check_isolated T u check_demographics st))
              = medications (fst st)" for u st
    by (rule run_check_isolated_keeps) (simp add: keeps_fields)
  have m2: "medications (fst (run_check_isolated T u check_blood_pressure st))
              = medications (fst st)" for u st
    by (rule run_check_isolated_keeps) (simp add: keeps_fields)
  have m3: "medications (fst (run_check_isolated T u check_weight st)) = medications (fst st)"
    for u st
    by (rule run_check_isolated_keeps) (simp add: keeps_fields)
  have m4: "medications (fst (run_check_isolated T u check_height st)) = medications (fst st)"
    for u st
    by (rule run_check_isolated_keeps) (simp add: keeps_fields)
  have c1: "has_complete_data (fst (run_check_isolated T u check_demographics st))
              = has_complete_data (fst st)" for u st
    by (rule run_check_isolated_keeps) (simp add: keeps_complete)
  have c2: "has_complete_data (fst (run_check_isolated T u check_blood_pressure st))
              = has_complete_data (fst st)" for u st
    by (rule run_check_isolated_keeps) (simp add: keeps_complete)
  have c3: "has_complete_data (fst (run_check_isolated T u check_weight st))
              = has_complete_data (fst st)" for u st
    by (rule run_check_isolated_keeps) (simp add: keeps_complete)
  have c4: "has_complete_data (fst (run_check_isolated T u check_height st))
              = has_complete_data (fst st)" for u st
    by (rule run_check_isolated_keeps) (simp add: keeps_complete)
  note keep = bp w1 w2 h1 h2 h3 m1 m2 m3 m4 c1 c2 c3 c4
  from small_cases [OF assms] show ?thesis
    by (elim disjE) (simp_all add: after_checks_def checks_def keep initial_status_def)
qed

lemma not_200_not_raises:
  assumes "c \<in> set (checks p)" "fst (T (fst c) (world s)) = Inr r" "status_code r \<noteq> 200"
  shows "\<not> check_raises T c (ds, s) \<and> fst (run_check_isolated T (fst c) (snd c) (ds, s)) = ds"
  using assms not_200_skips [OF assms(3), of ds]
  by (auto simp: checks_def check_raises_def run_check_isolated_def requests_get_def
      split: prod.splits)

lemma first_raise_aborts:
  assumes "k < 5"
    and "\<forall>j<k. \<not> check_raises T (checks p ! j) (after_checks T p j s)"
    and "check_raises T (checks p ! k) (after_checks T p k s)"
  shows "check_patient_data T p s
           = ((False, fst (after_checks T p k s)), snd (after_checks T p (Suc k) s))"
proof -
  have len: "k < length (checks p)" using assms(1) by (simp add: checks_def)
  from run_checks_abort [OF len, of T "(initial_status p, s)"] assms(2,3)
  obtain e where "run_checks T (checks p) (None, initial_status p, s)
           = (Some e, fst (after_checks T p k s), snd (after_checks T p (Suc k) s))"
    unfolding after_checks_def by blast
  then have "check_patient_data_try T p s
           = (Some e, fst (after_checks T p k s), snd (after_checks T p (Suc k) s))"
    by (simp add: try_as_list determine_complete_def)
  then show ?thesis using after_checks_defaults [OF assms(1), of T p s]
    by (simp add: check_patient_data_def)
qed

lemma no_raise_isolated:
  assumes "\<forall>j<5. \<not> check_raises T (checks p ! j) (after_checks T p j s)"
  shows "check_patient_data T p s = check_patient_data_isolated T p s"
proof -
  have "\<forall>j<length (checks p). \<not> check_raises T (checks p ! j)
          (isolated_prefix T (take j (checks p)) (initial_status p, s))"
    using assms by (simp add: checks_def after_checks_def)
  from run_checks_none [OF this]
  have "run_checks T (checks p) (None, initial_status p, s)
          = (None, isolated_prefix T (checks p) (initial_status p, s))" .
  then show ?thesis
    by (simp add: check_patient_data_def try_as_list determine_complete_def isolated_as_list
        split: prod.splits)
qed

text \<open>
  C1, as the code has it. The checks run in the order demographics, blood pressure, weight,
  height, medications, inside one \<open>try\<close> block.
  (1) The first check that raises aborts the evaluation, whichever of the five it is: the
  verdict is the dictionary the checks before it left, so the field of the failing check
  and the fields of all later checks are at their defaults and \<open>has_complete_data\<close> is
  false, and the request of the failing check is the last one made.
  (2) When no check raises, the verdict is the one of the evaluator with isolated checks,
  and all five requests are made.
  (3) A status other than 200 is not a raise: the check leaves the dictionary as it is
  and the evaluation goes on.
  (4) A request that raises, and a response with status 200 whose body does not decode,
  are raises.
  The last three parts restate this from the \<open>try\<close> block itself: no exception means the
  isolated verdict; a status other than 200 makes every update the identity; and when the
  demographics check did not raise and the blood-pressure request raises, the verdict is
  the dictionary the demographics check left, with \<open>blood_pressure = 0\<close>, weight, height
  and medications at their defaults, and the blood-pressure request is the last one made.
\<close>
theorem failure_in_one_check:
  "(\<forall>k<5. (\<forall>j<k. \<not> check_raises T (checks patient_id ! j) (after_checks T patient_id j s))
          \<and> check_raises T (checks patient_id ! k) (after_checks T patient_id k s) \<longrightarrow>
        check_patient_data T patient_id s
          = ((False, fst (after_checks T patient_id k s)),
             snd (after_checks T patient_id (Suc k) s))
        \<and> calls (snd (after_checks T patient_id (Suc k) s))
            = calls s @ map fst (take (Suc k) (checks patient_id))
        \<and> (k \<le> 0 \<longrightarrow> \<not> demographics (fst (after_checks T patient_id k s)))
        \<and> (k \<le> 1 \<longrightarrow> blood_pressure (fst (after_checks T patient_id k s)) = 0)
        \<and> (k \<le> 2 \<longrightarrow> \<not> weight (fst (after_checks T patient_id k s)))
        \<and> (k \<le> 3 \<longrightarrow> \<not> height (fst (after_checks T patient_id k s)))
        \<and> medications (fst (after_checks T patient_id k s)) = 0
        \<and> \<not> has_complete_data (fst (after_checks T patient_id k s)))
   \<and> ((\<forall>j<5. \<not> check_raises T (checks patient_id ! j) (after_checks T patient_id j s)) \<longrightarrow>
        check_patient_data T patient_id s = check_patient_data_isolated T patient_id s
        \<and> calls (snd (check_patient_data T patient_id s))
            = calls s @ map fst (checks patient_id))
   \<and> (\<forall>c\<in>set (checks patient_id). \<forall>d s0 r0.
        fst (T (fst c) (world s0)) = Inr r0 \<and> status_code r0 \<noteq> 200 \<longrightarrow>
        \<not> check_raises T c (d, s0)
        \<and> fst (run_check_isolated T (fst c) (snd c) (d, s0)) = d)
   \<and> (\<forall>c\<in>set (checks patient_id). \<forall>d s0.
        (\<exists>e. fst (T (fst c) (world s0)) = Inl e)
        \<or> (\<exists>r0. fst (T (fst c) (world s0)) = Inr r0 \<and> status_code r0 = 200 \<and> body r0 = None)
        \<longrightarrow> check_raises T c (d, s0))
   \<and> (fst (check_patient_data_try T patient_id s) = None \<longrightarrow>
        check_patient_data T patient_id s = check_patient_data_isolated T patient_id s)
   \<and> (status_code r \<noteq> 200 \<longrightarrow>
        check_demographics r ds = Inr ds \<and> check_blood_pressure r ds = Inr ds
        \<and> check_weight r ds = Inr ds \<and> check_height r ds = Inr ds
        \<and> check_medications r ds = Inr ds)
   \<and> (run_check T (patient_url patient_id) check_demographics
          (None, initial_status patient_id, s) = (None, ds1, s1)
        \<and> fst (T (bp_url patient_id) (world s1)) = Inl e \<longrightarrow>
        check_patient_data T patient_id s
          = ((False, ds1),
             \<lparr>world = snd (T (bp_url patient_id) (world s1)),
              calls = calls s1 @ [bp_url patient_id]\<rparr>)
        \<and> blood_pressure ds1 = 0 \<and> \<not> weight ds1 \<and> \<not> height ds1
        \<and> medications ds1 = 0 \<and> \<not> has_complete_data ds1)"
proof -
  have g: "\<forall>k<5. (\<forall>j<k. \<not> check_raises T (checks patient_id ! j) (after_checks T patient_id j s))
          \<and> check_raises T (checks patient_id ! k) (after_checks T patient_id k s) \<longrightarrow>
        check_patient_data T patient_id s
          = ((False, fst (after_checks T patient_id k s)),
             snd (after_checks T patient_id (Suc k) s))
        \<and> calls (snd (after_checks T patient_id (Suc k) s))
            = calls s @ map fst (take (Suc k) (checks patient_id))
        \<and> (k \<le> 0 \<longrightarrow> \<not> demographics (fst (after_checks T patient_id k s)))
        \<and> (k \<le> 1 \<longrightarrow> blood_pressure (fst (after_checks T patient_id k s)) = 0)
        \<and> (k \<le> 2 \<longrightarrow> \<not> weight (fst (after_checks T patient_id k s)))
        \<and> (k \<le> 3 \<longrightarrow> \<not> height (fst (after_checks T patient_id k s)))
        \<and> medications (fst (after_checks T patient_id k s)) = 0
        \<and> \<not> has_complete_data (fst (after_checks T patient_id k s))"
  proof (intro allI impI)
    fix k
    assume k: "k < 5"
      and h: "(\<forall>j<k. \<not> check_raises T (checks patient_id ! j) (after_checks T patient_id j s))
          \<and> check_raises T (checks patient_id ! k) (after_checks T patient_id k s)"
    have a: "check_patient_data T patient_id s
          = ((False, fst (after_checks T patient_id k s)),
             snd (after_checks T patient_id (Suc k) s))"
      by (rule first_raise_aborts [OF k conjunct1 [OF h] conjunct2 [OF h]])
    have b: "calls (snd (after_checks T patient_id (Suc k) s))
            = calls s @ map fst (take (Suc k) (checks patient_id))"
      by (simp add: after_checks_def isolated_prefix_calls)
    show "check_patient_data T patient_id s
          = ((False, fst (after_checks T patient_id k s)),
             snd (after_checks T patient_id (Suc k) s))
        \<and> calls (snd (after_checks T patient_id (Suc k) s))
            = calls s @ map fst (take (Suc k) (checks patient_id))
        \<and> (k \<le> 0 \<longrightarrow> \<not> demographics (fst (after_checks T patient_id k s)))
        \<and> (k \<le> 1 \<longrightarrow> blood_pressure (fst (after_checks T patient_id k s)) = 0)
        \<and> (k \<le> 2 \<longrightarrow> \<not> weight (fst (after_checks T patient_id k s)))
        \<and> (k \<le> 3 \<longrightarrow> \<not> height (fst (after_checks T patient_id k s)))
        \<and> medications (fst (after_checks T patient_id k s)) = 0
        \<and> \<not> has_complete_data (fst (after_checks T patient_id k s))"
      by (rule conjI [OF a conjI [OF b after_checks_defaults [OF k]]])
  qed
  have n: "(\<forall>j<5. \<not> check_raises T (checks patient_id ! j) (after_checks T patient_id j s)) \<longrightarrow>
        check_patient_data T patient_id s = check_patient_data_isolated T patient_id s
        \<and> calls (snd (check_patient_data T patient_id s))
            = calls s @ map fst (checks patient_id)"
  proof
    assume h: "\<forall>j<5. \<not> check_raises T (checks patient_id ! j) (after_checks T patient_id j s)"
    have a: "check_patient_data T patient_id s = check_patient_data_isolated T patient_id s"
      by (rule no_raise_isolated [OF h])
    have "calls (snd (check_patient_data_isolated T patient_id s))
            = calls s @ map fst (checks patient_id)"
      using isolated_prefix_calls [of T "checks patient_id" "(initial_status patient_id, s)"]
      by (auto simp: isolated_as_list split: prod.splits)
    then show "check_patient_data T patient_id s = check_patient_data_isolated T patient_id s
        \<and> calls (snd (check_patient_data T patient_id s))
            = calls s @ map fst (checks patient_id)"
      using a by simp
  qed
  have st: "\<forall>c\<in>set (checks patient_id). \<forall>d s0 r0.
        fst (T (fst c) (world s0)) = Inr r0 \<and> status_code r0 \<noteq> 200 \<longrightarrow>
        \<not> check_raises T c (d, s0)
        \<and> fst (run_check_isolated T (fst c) (snd c) (d, s0)) = d"
    using not_200_not_raises [of _ patient_id T] by blast
  have rs: "\<forall>c\<in>set (checks patient_id). \<forall>d s0.
        (\<exists>e. fst (T (fst c) (world s0)) = Inl e)
        \<or> (\<exists>r0. fst (T (fst c) (world s0)) = Inr r0 \<and> status_code r0 = 200 \<and> body r0 = None)
        \<longrightarrow> check_raises T c (d, s0)"
    by (auto simp: checks_def check_raises_def check_demographics_def check_blood_pressure_def
        check_weight_def check_height_def check_medications_def response_json_def bind_exn_def)
  have "check_patient_data T patient_id s = check_patient_data_isolated T patient_id s"
    if none: "fst (check_patient_data_try T patient_id s) = None"
  proof -
    obtain v s' where t: "check_patient_data_try T patient_id s = (None, v, s')"
      using none by (cases "check_patient_data_try T patient_id s") auto
    show ?thesis using try_None_isolated [OF t] t by (simp add: check_patient_data_def)
  qed
  then have p1: "fst (check_patient_data_try T patient_id s) = None \<longrightarrow>
      check_patient_data T patient_id s = check_patient_data_isolated T patient_id s"
    by (rule impI)
  have p2: "status_code r \<noteq> 200 \<longrightarrow>
        check_demographics r ds = Inr ds \<and> check_blood_pressure r ds = Inr ds
        \<and> check_weight r ds = Inr ds \<and> check_height r ds = Inr ds
        \<and> check_medications r ds = Inr ds"
    by (rule impI) (rule not_200_skips)
  have p3: "run_check T (patient_url patient_id) check_demographics
          (None, initial_status patient_id, s) = (None, ds1, s1)
        \<and> fst (T (bp_url patient_id) (world s1)) = Inl e \<longrightarrow>
        check_patient_data T patient_id s
          = ((False, ds1),
             \<lparr>world = snd (T (bp_url patient_id) (world s1)),
              calls = calls s1 @ [bp_url patient_id]\<rparr>)
        \<and> blood_pressure ds1 = 0 \<and> \<not> weight ds1 \<and> \<not> height ds1
        \<and> medications ds1 = 0 \<and> \<not> has_complete_data ds1"
  proof
    assume h: "run_check T (patient_url patient_id) check_demographics
          (None, initial_status patient_id, s) = (None, ds1, s1)
        \<and> fst (T (bp_url patient_id) (world s1)) = Inl e"
    show "check_patient_data T patient_id s
          = ((False, ds1),
             \<lparr>world = snd (T (bp_url patient_id) (world s1)),
              calls = calls s1 @ [bp_url patient_id]\<rparr>)
        \<and> blood_pressure ds1 = 0 \<and> \<not> weight ds1 \<and> \<not> height ds1
        \<and> medications ds1 = 0 \<and> \<not> has_complete_data ds1"
      by (rule bp_raise_aborts [OF conjunct1 [OF h] conjunct2 [OF h]])
  qed
  show ?thesis
    by (rule conjI [OF g conjI [OF n conjI [OF st conjI [OF rs conjI [OF p1 conjI [OF p2 p3]]]]]])
qed

lemma bp_down_demographics:
  "run_check bp_down_server (patient_url (JStr ''p1'')) check_demographics
      (None, initial_status (JStr ''p1''), net0)
    = (None, (initial_status (JStr ''p1''))\<lparr>demographics := True\<rparr>,
       \<lparr>world = (), calls = [patient_url (JStr ''p1'')]\<rparr>)"
  by (simp add: run_check_def requests_get_def net0_def patient_url_def
      check_demographics_def response_json_def bind_exn_def ok_def patient_resource_def)

lemma bp_down_raises: "bp_down_server (bp_url (JStr ''p1'')) () = (Inl RequestException, ())"
  by (simp add: bp_url_def)

lemma bp_down_isolated:
  "check_patient_data_isolated bp_down_server (JStr ''p1'') net0 =
     ((False,
       \<lparr>id_field = JStr ''p1'', demographics = True, blood_pressure = 0, weight = True,
        height = True, medications = 1, has_complete_data = False\<rparr>),
      \<lparr>world = (), calls = checked_urls (JStr ''p1'')\<rparr>)"
  by (simp add: check_patient_data_isolated_def run_check_isolated_def requests_get_def
      initial_status_def checked_urls_def net0_def
      patient_url_def bp_url_def weight_url_def height_url_def med_url_def
      check_demographics_def check_blood_pressure_def check_weight_def check_height_def
      check_medications_def response_json_def bind_exn_def ok_def
      fhir_bundle_def patient_resource_def some_entry_def)

lemma bp_down_check:
  "check_patient_data bp_down_server (JStr ''p1'') net0 =
     ((False,
       \<lparr>id_field = JStr ''p1'', demographics = True, blood_pressure = 0, weight = False,
        height = False, medications = 0, has_complete_data = False\<rparr>),
      \<lparr>world = (), calls = [patient_url (JStr ''p1''), bp_url (JStr ''p1'')]\<rparr>)"
  by (simp add: check_patient_data_def check_patient_data_try_def run_check_def requests_get_def
      determine_complete_def initial_status_def net0_def
      patient_url_def bp_url_def weight_url_def height_url_def med_url_def
      check_demographics_def check_blood_pressure_def check_weight_def check_height_def
      check_medications_def response_json_def bind_exn_def ok_def
      fhir_bundle_def patient_resource_def some_entry_def)

text \<open>
  C1 as stated fails: on a server that holds weight, height and medication data for the
  candidate (the isolated checks find them) but raises on the blood-pressure request,
  the verdict has weight and height false and no medications, and only two requests
  were made.
\<close>
theorem failure_isolation_counterexample:
  "bp_down_server (bp_url (JStr ''p1'')) () = (Inl RequestException, ())
   \<and> check_patient_data bp_down_server (JStr ''p1'') net0 =
     ((False,
       \<lparr>id_field = JStr ''p1'', demographics = True, blood_pressure = 0, weight = False,
        height = False, medications = 0, has_complete_data = False\<rparr>),
      \<lparr>world = (), calls = [patient_url (JStr ''p1''), bp_url (JStr ''p1'')]\<rparr>)
   \<and> check_patient_data_isolated bp_down_server (JStr ''p1'') net0 =
     ((False,
       \<lparr>id_field = JStr ''p1'', demographics = True, blood_pressure = 0, weight = True,
        height = True, medications = 1, has_complete_data = False\<rparr>),
      \<lparr>world = (), calls = checked_urls (JStr ''p1'')\<rparr>)"
  by (simp only: bp_down_raises bp_down_check bp_down_isolated simp_thms)

lemma demo_try_p2:
  "check_patient_data_try demo_server (JStr ''p2'') net0 =
     (None, demo_verdict_p2, \<lparr>world = (), calls = checked_urls (JStr ''p2'')\<rparr>)"
  by (simp add: check_patient_data_try_def run_check_def requests_get_def
      determine_complete_def initial_status_def checked_urls_def net0_def demo_verdict_p2_def
      patient_url_def bp_url_def weight_url_def height_url_def med_url_def
      check_demographics_def check_blood_pressure_def check_weight_def check_height_def
      check_medications_def response_json_def bind_exn_def ok_def
      fhir_bundle_def patient_resource_def some_entry_def)

lemmas eval_defs =
  after_checks_def checks_def check_raises_def run_check_isolated_def requests_get_def
  net0_def initial_status_def patient_url_def bp_url_def weight_url_def height_url_def
  med_url_def check_demographics_def check_blood_pressure_def check_weight_def
  check_height_def check_medications_def response_json_def bind_exn_def ok_def
  fhir_bundle_def patient_resource_def some_entry_def checked_urls_def

theorem failure_in_one_check_witness:
  "check_patient_data bp_down_server (JStr ''p1'') net0
     = ((False,
         \<lparr>id_field = JStr ''p1'', demographics = True, blood_pressure = 0, weight = False,
          height = False, medications = 0, has_complete_data = False\<rparr>),
        \<lparr>world = (), calls = [patient_url (JStr ''p1''), bp_url (JStr ''p1'')]\<rparr>)
   \<and> check_patient_data med_down_server (JStr ''p1'') net0
     = ((False,
         \<lparr>id_field = JStr ''p1'', demographics = True, blood_pressure = 1, weight = True,
          height = True, medications = 0, has_complete_data = False\<rparr>),
        \<lparr>world = (), calls = checked_urls (JStr ''p1'')\<rparr>)
   \<and> check_patient_data bp_missing_server (JStr ''p1'') net0
     = check_patient_data_isolated bp_missing_server (JStr ''p1'') net0
   \<and> calls (snd (check_patient_data bp_missing_server (JStr ''p1'') net0))
     = checked_urls (JStr ''p1'')"
proof -
  have pre_a:
    "(\<forall>j<Suc 0. \<not> check_raises bp_down_server (checks (JStr ''p1'') ! j)
                   (after_checks bp_down_server (JStr ''p1'') j net0))
     \<and> check_raises bp_down_server (checks (JStr ''p1'') ! Suc 0)
          (after_checks bp_down_server (JStr ''p1'') (Suc 0) net0)"
    by (simp add: eval_defs)
  have a: "check_patient_data bp_down_server (JStr ''p1'') net0
     = ((False, fst (after_checks bp_down_server (JStr ''p1'') (Suc 0) net0)),
        snd (after_checks bp_down_server (JStr ''p1'') (Suc (Suc 0)) net0))"
    by (rule failure_in_one_check [THEN conjunct1, rule_format, THEN conjunct1])
       (simp, rule pre_a)
  have a': "check_patient_data bp_down_server (JStr ''p1'') net0
     = ((False,
         \<lparr>id_field = JStr ''p1'', demographics = True, blood_pressure = 0, weight = False,
          height = False, medications = 0, has_complete_data = False\<rparr>),
        \<lparr>world = (), calls = [patient_url (JStr ''p1''), bp_url (JStr ''p1'')]\<rparr>)"
    unfolding a by (simp add: eval_defs)
  have pre_b:
    "(\<forall>j<Suc (Suc (Suc (Suc 0))). \<not> check_raises med_down_server (checks (JStr ''p1'') ! j)
                   (after_checks med_down_server (JStr ''p1'') j net0))
     \<and> check_raises med_down_server (checks (JStr ''p1'') ! Suc (Suc (Suc (Suc 0))))
          (after_checks med_down_server (JStr ''p1'') (Suc (Suc (Suc (Suc 0)))) net0)"
    by (simp add: All_less_Suc eval_defs)
  have b: "check_patient_data med_down_server (JStr ''p1'') net0
     = ((False, fst (after_checks med_down_server (JStr ''p1'') (Suc (Suc (Suc (Suc 0)))) net0)),
        snd (after_checks med_down_server (JStr ''p1'') (Suc (Suc (Suc (Suc (Suc 0))))) net0))"
    by (rule failure_in_one_check [THEN conjunct1, rule_format, THEN conjunct1])
       (simp, rule pre_b)
  have b': "check_patient_data med_down_server (JStr ''p1'') net0
     = ((False,
         \<lparr>id_field = JStr ''p1'', demographics = True, blood_pressure = 1, weight = True,
          height = True, medications = 0, has_complete_data = False\<rparr>),
        \<lparr>world = (), calls = checked_urls (JStr ''p1'')\<rparr>)"
    unfolding b by (simp add: eval_defs)
  have pre_c:
    "\<forall>j<5. \<not> check_raises bp_missing_server (checks (JStr ''p1'') ! j)
                   (after_checks bp_missing_server (JStr ''p1'') j net0)"
  proof (intro allI impI)
    fix j :: nat assume "j < 5"
    from small_cases [OF this]
    show "\<not> check_raises bp_missing_server (checks (JStr ''p1'') ! j)
                   (after_checks bp_missing_server (JStr ''p1'') j net0)"
      by (elim disjE) (simp_all add: eval_defs)
  qed
  have c: "check_patient_data bp_missing_server (JStr ''p1'') net0
             = check_patient_data_isolated bp_missing_server (JStr ''p1'') net0
           \<and> calls (snd (check_patient_data bp_missing_server (JStr ''p1'') net0))
             = calls net0 @ map fst (checks (JStr ''p1''))"
    by (rule failure_in_one_check [THEN conjunct2, THEN conjunct1, THEN mp]) (rule pre_c)
  have c': "calls (snd (check_patient_data bp_missing_server (JStr ''p1'') net0))
             = checked_urls (JStr ''p1'')"
    unfolding conjunct2 [OF c] by (simp add: net0_def checks_def checked_urls_def)
  show ?thesis by (rule conjI [OF a' conjI [OF b' conjI [OF conjunct1 [OF c] c']]])
qed


lemma keeps_blood_pressure:
  "check_demographics r ds = Inr ds' \<Longrightarrow> blood_pressure ds' = blood_pressure ds"
  "check_weight r ds = Inr ds' \<Longrightarrow> blood_pressure ds' = blood_pressure ds"
  "check_height r ds = Inr ds' \<Longrightarrow> blood_pressure ds' = blood_pressure ds"
  "check_medications r ds = Inr ds' \<Longrightarrow> blood_pressure ds' = blood_pressure ds"
  by (auto dest: check_demographics_cases check_weight_cases
      check_height_cases check_medications_cases)

lemma determine_complete_blood_pressure:
  "blood_pressure (fst (snd (determine_complete st))) = blood_pressure (fst (snd st))"
  by (auto simp: determine_complete_def split: prod.splits option.splits)

lemma blood_pressure_after_second:
  "blood_pressure (fst (snd (check_patient_data_try T p s)))
     = blood_pressure (fst (snd
         (run_check T (bp_url p) check_blood_pressure
         (run_check T (patient_url p) check_demographics (None, initial_status p, s)))))"
  by (simp add: check_patient_data_try_def Let_def determine_complete_blood_pressure
      run_check_keeps [where f = blood_pressure] keeps_blood_pressure)

lemma check_blood_pressure_entries:
  "status_code resp = 200 \<Longrightarrow> body resp = Some (JObj kvs) \<Longrightarrow>
   map_of kvs ''entry'' = Some (JArr es) \<Longrightarrow>
   check_blood_pressure resp ds = Inr (ds\<lparr>blood_pressure := length es\<rparr>)"
  by (auto simp: check_blood_pressure_def response_json_def bind_exn_def
      dest: map_of_SomeD intro: rev_image_eqI)

lemma check_blood_pressure_no_entry:
  "body resp = Some (JObj kvs) \<Longrightarrow> map_of kvs ''entry'' = None \<Longrightarrow>
   check_blood_pressure resp ds = Inr ds"
  by (auto simp: check_blood_pressure_def response_json_def bind_exn_def map_of_eq_None_iff)

lemma run_check_step:
  "T u (world s) = (r, w) \<Longrightarrow>
   fst (snd (run_check T u upd (None, ds, s)))
     = (case r of Inl e \<Rightarrow> ds
        | Inr resp \<Rightarrow> (case upd resp ds of Inl e \<Rightarrow> ds | Inr ds' \<Rightarrow> ds'))"
  by (auto simp: run_check_def requests_get_def split: sum.splits)

text \<open>
  C9. Let \<open>r\<close> be what the transport answers to the blood-pressure request in the state
  the demographics check left. If the demographics check did not raise and \<open>r\<close> is a
  response with status 200 whose body is an object with an \<open>entry\<close> list, the verdict's
  \<open>blood_pressure\<close> is the length of that list. It is 0 when the body has no \<open>entry\<close>
  field, when the status is not 200, when the request raises, when the statements of the
  check raise, and when the evaluation was aborted before the request.
\<close>
theorem blood_pressure_count:
  assumes "check_patient_data T patient_id s = ((c, v), s')"
    and "run_check T (patient_url patient_id) check_demographics
           (None, initial_status patient_id, s) = (x, ds1, s1)"
    and "T (bp_url patient_id) (world s1) = (r, w2)"
  shows "(\<forall>resp kvs es. x = None \<and> r = Inr resp \<and> status_code resp = 200
            \<and> body resp = Some (JObj kvs) \<and> map_of kvs ''entry'' = Some (JArr es)
            \<longrightarrow> blood_pressure v = length es)
       \<and> (\<forall>resp kvs. r = Inr resp \<and> body resp = Some (JObj kvs)
            \<and> map_of kvs ''entry'' = None \<longrightarrow> blood_pressure v = 0)
       \<and> (\<forall>resp. r = Inr resp \<and> status_code resp \<noteq> 200 \<longrightarrow> blood_pressure v = 0)
       \<and> (\<forall>e. r = Inl e \<longrightarrow> blood_pressure v = 0)
       \<and> (\<forall>resp e. r = Inr resp \<and> check_blood_pressure resp ds1 = Inl e
            \<longrightarrow> blood_pressure v = 0)
       \<and> (x \<noteq> None \<longrightarrow> blood_pressure v = 0)"
proof -
  have v: "blood_pressure v
     = blood_pressure (fst (snd (run_check T (bp_url patient_id) check_blood_pressure (x, ds1, s1))))"
    using blood_pressure_after_second [of T patient_id s] assms(1,2)
    by (auto simp: check_patient_data_def split: prod.splits)
  have zero: "blood_pressure ds1 = 0"
    using run_check_keeps [where f = blood_pressure and upd = check_demographics
        and T = T and u = "patient_url patient_id"
        and st = "(None, initial_status patient_id, s)"] assms(2)
    by (simp add: keeps_blood_pressure initial_status_def)
  have raised: "blood_pressure v = 0" if "x \<noteq> None"
    using that v zero by (auto simp: run_check_raised)
  have step: "blood_pressure v
     = blood_pressure (case r of Inl e \<Rightarrow> ds1
        | Inr resp \<Rightarrow> (case check_blood_pressure resp ds1 of Inl e \<Rightarrow> ds1 | Inr ds' \<Rightarrow> ds'))"
    if "x = None"
    using that v assms(3)
      run_check_step [of T "bp_url patient_id" s1 r w2 check_blood_pressure ds1] by simp
  have p1: "blood_pressure v = length es"
    if "x = None" "r = Inr resp" "status_code resp = 200" "body resp = Some (JObj kvs)"
      "map_of kvs ''entry'' = Some (JArr es)" for resp kvs es
    using step [OF that(1)] that(2) check_blood_pressure_entries [OF that(3,4,5), of ds1]
    by simp
  have p2: "blood_pressure v = 0"
    if "r = Inr resp" "body resp = Some (JObj kvs)" "map_of kvs ''entry'' = None" for resp kvs
  proof (cases "x = None")
    case True
    then show ?thesis
      using step that(1) check_blood_pressure_no_entry [OF that(2,3), of ds1] zero by simp
  next
    case False
    then show ?thesis by (rule raised)
  qed
  have p3: "blood_pressure v = 0" if "r = Inr resp" "status_code resp \<noteq> 200" for resp
  proof (cases "x = None")
    case True
    then show ?thesis
      using step that(1) not_200_skips [OF that(2), of ds1] zero by simp
  next
    case False
    then show ?thesis by (rule raised)
  qed
  have p4: "blood_pressure v = 0" if "r = Inl e" for e
  proof (cases "x = None")
    case True
    then show ?thesis using step that zero by simp
  next
    case False
    then show ?thesis by (rule raised)
  qed
  have p5: "blood_pressure v = 0"
    if "r = Inr resp" "check_blood_pressure resp ds1 = Inl e" for resp e
  proof (cases "x = None")
    case True
    then show ?thesis using step that zero by simp
  next
    case False
    then show ?thesis by (rule raised)
  qed
  show ?thesis using p1 p2 p3 p4 p5 raised by blast
qed

lemma demo_demographics_p2:
  "run_check demo_server (patient_url (JStr ''p2'')) check_demographics
      (None, initial_status (JStr ''p2''), net0)
    = (None, (initial_status (JStr ''p2''))\<lparr>demographics := True\<rparr>,
       \<lparr>world = (), calls = [patient_url (JStr ''p2'')]\<rparr>)"
  by (simp add: run_check_def requests_get_def net0_def patient_url_def
      check_demographics_def response_json_def bind_exn_def ok_def patient_resource_def)

lemma demo_bp_p2:
  "demo_server (bp_url (JStr ''p2'')) ()
     = (Inr \<lparr>status_code = 200,
             body = Some (JObj [(''resourceType'', JStr ''Bundle''),
                                (''entry'', JArr [some_entry, some_entry])])\<rparr>, ())"
  by (simp add: bp_url_def ok_def fhir_bundle_def)

theorem blood_pressure_count_witness:
  "blood_pressure (snd (fst (check_patient_data demo_server (JStr ''p2'') net0)))
     = length [some_entry, some_entry]
   \<and> blood_pressure (snd (fst (check_patient_data bp_down_server (JStr ''p1'') net0))) = 0"
proof -
  have h1: "check_patient_data demo_server (JStr ''p2'') net0
      = ((fst (fst (check_patient_data demo_server (JStr ''p2'') net0)),
          snd (fst (check_patient_data demo_server (JStr ''p2'') net0))),
         snd (check_patient_data demo_server (JStr ''p2'') net0))"
    by simp
  have h3: "demo_server (bp_url (JStr ''p2''))
       (world \<lparr>world = (), calls = [patient_url (JStr ''p2'')]\<rparr>)
     = (Inr \<lparr>status_code = 200,
             body = Some (JObj [(''resourceType'', JStr ''Bundle''),
                                (''entry'', JArr [some_entry, some_entry])])\<rparr>, ())"
    by (simp add: demo_bp_p2)
  have a: "blood_pressure (snd (fst (check_patient_data demo_server (JStr ''p2'') net0)))
     = length [some_entry, some_entry]"
    by (rule blood_pressure_count [OF h1 demo_demographics_p2 h3, THEN conjunct1,
          rule_format,
          where resp = "\<lparr>status_code = 200,
             body = Some (JObj [(''resourceType'', JStr ''Bundle''),
                                (''entry'', JArr [some_entry, some_entry])])\<rparr>"
            and kvs = "[(''resourceType'', JStr ''Bundle''),
                        (''entry'', JArr [some_entry, some_entry])]"]) simp
  have k1: "check_patient_data bp_down_server (JStr ''p1'') net0
      = ((fst (fst (check_patient_data bp_down_server (JStr ''p1'') net0)),
          snd (fst (check_patient_data bp_down_server (JStr ''p1'') net0))),
         snd (check_patient_data bp_down_server (JStr ''p1'') net0))"
    by simp
  have k3: "bp_down_server (bp_url (JStr ''p1''))
       (world \<lparr>world = (), calls = [patient_url (JStr ''p1'')]\<rparr>)
     = (Inl RequestException, ())"
    by (simp add: bp_down_raises)
  have b: "blood_pressure (snd (fst (check_patient_data bp_down_server (JStr ''p1'') net0))) = 0"
    by (rule blood_pressure_count [OF k1 bp_down_demographics k3,
          THEN conjunct2, THEN conjunct2, THEN conjunct2, THEN conjunct1, rule_format])
       simp
  show ?thesis by (rule conjI [OF a b])
qed

text \<open>
  C7 as stated fails for a status outside 200..299 that is not an error code for
  \<open>raise_for_status\<close>: a response with status 300 and a body that lists a
  patient yields that patient.
\<close>
theorem get_all_patients_failure_counterexample:
  "requests_get choices_server (patients_url 50) net0
     = (Inr \<lparr>status_code = 300, body = Some (fhir_bundle [patient_entry ''p1''])\<rparr>,
        \<lparr>world = (), calls = [patients_url 50]\<rparr>)
   \<and> get_all_patients choices_server 50 net0
     = ([JStr ''p1''], \<lparr>world = (), calls = [patients_url 50]\<rparr>)
   \<and> fst (get_all_patients choices_server 50 net0) \<noteq> []"
  by (simp add: get_all_patients_def get_all_patients_try_def requests_get_def
      choices_server_def net0_def patient_ids_of_def raise_for_status_def response_json_def
      bind_exn_def fhir_bundle_def patient_entry_def patient_resource_def)

lemma collect_ids_map:
  "collect_ids es acc = Inr ids \<Longrightarrow> map Inr ids = map Inr acc @ map entry_id es"
proof (induction es arbitrary: acc)
  case Nil
  then show ?case by simp
next
  case (Cons e es)
  from Cons.prems obtain res i where
    r: "py_getitem e ''resource'' = Inr res" and i: "py_getitem res ''id'' = Inr i"
    and rest: "collect_ids es (acc @ [i]) = Inr ids"
    by (auto simp: bind_exn_def split: sum.splits)
  have "entry_id e = Inr i" using r i by (simp add: entry_id_def bind_exn_def)
  then show ?case using Cons.IH [OF rest] by simp
qed

lemma collect_ids_total:
  "\<forall>e\<in>set es. \<exists>i. entry_id e = Inr i \<Longrightarrow> \<exists>ids. collect_ids es acc = Inr ids"
proof (induction es arbitrary: acc)
  case Nil
  then show ?case by simp
next
  case (Cons e es)
  then obtain i where "entry_id e = Inr i" by auto
  then obtain res where "py_getitem e ''resource'' = Inr res" "py_getitem res ''id'' = Inr i"
    by (auto simp: entry_id_def bind_exn_def split: sum.splits)
  then show ?case using Cons.IH [of "acc @ [i]"] Cons.prems by (simp add: bind_exn_def)
qed

lemma collect_ids_strs: "collect_ids (map JStr ks) [] = Inr ids \<Longrightarrow> ids = []"
  by (cases ks) (auto simp: bind_exn_def)

lemma collect_ids_chars: "collect_ids (map (\<lambda>c. JStr [c]) cs) [] = Inr ids \<Longrightarrow> ids = []"
  by (cases cs) (auto simp: bind_exn_def)

lemma patient_ids_of_cases:
  assumes "patient_ids_of resp = Inr ids"
  shows "ids = []
       \<or> (\<exists>kvs es. body resp = Some (JObj kvs) \<and> map_of kvs ''entry'' = Some (JArr es)
            \<and> map Inr ids = map entry_id es)"
proof -
  from assms obtain data where d: "body resp = Some data"
    by (auto simp: patient_ids_of_def response_json_def bind_exn_def
        split: sum.splits option.splits)
  from assms d obtain has_entry where h: "py_contains data ''entry'' = Inr has_entry"
    by (auto simp: patient_ids_of_def response_json_def bind_exn_def split: sum.splits)
  show ?thesis
  proof (cases has_entry)
    case False
    then show ?thesis using assms d h
      by (auto simp: patient_ids_of_def response_json_def bind_exn_def split: sum.splits)
  next
    case True
    then obtain entries es where g: "py_getitem data ''entry'' = Inr entries"
      and it: "py_iter entries = Inr es" and c: "collect_ids es [] = Inr ids"
      using assms d h
      by (auto simp: patient_ids_of_def response_json_def bind_exn_def split: sum.splits)
    from g obtain kvs where k: "data = JObj kvs" "map_of kvs ''entry'' = Some entries"
      by (cases data) (auto split: option.splits)
    show ?thesis
    proof (cases entries)
      case (JArr xs)
      then have "map Inr ids = map entry_id xs" using it c collect_ids_map [of xs "[]" ids] by simp
      then show ?thesis using d k JArr by blast
    next
      case (JStr x)
      then show ?thesis using it c collect_ids_chars by auto
    next
      case (JObj x)
      then show ?thesis using it c collect_ids_strs by auto
    qed (use it in auto)
  qed
qed

text \<open>
  C8, as the code has it. The result of \<open>get_all_patients\<close> is empty, or it is, in the
  order of the response, the identifier of every entry of the response's \<open>entry\<close> list:
  its length is the number of entries the server returned, whatever \<open>limit\<close> is. The
  second part holds whenever the response is not an error, its body is an object with an
  \<open>entry\<close> list and every entry has a resource with an id.
\<close>
theorem get_all_patients_ids:
  assumes "get_all_patients T limit s = (ids, s')"
  shows "(ids = []
          \<or> (\<exists>resp kvs es. fst (T (patients_url limit) (world s)) = Inr resp
               \<and> body resp = Some (JObj kvs) \<and> map_of kvs ''entry'' = Some (JArr es)
               \<and> map Inr ids = map entry_id es))
       \<and> (\<forall>resp kvs es. fst (T (patients_url limit) (world s)) = Inr resp
               \<and> \<not> (400 \<le> status_code resp \<and> status_code resp < 600)
               \<and> body resp = Some (JObj kvs) \<and> map_of kvs ''entry'' = Some (JArr es)
               \<and> (\<forall>e\<in>set es. \<exists>i. entry_id e = Inr i)
               \<longrightarrow> map Inr ids = map entry_id es)"
proof -
  obtain r w where t: "T (patients_url limit) (world s) = (r, w)"
    by (cases "T (patients_url limit) (world s)") auto
  have res: "(ids, s') = (case r of Inl e \<Rightarrow> []
                | Inr resp \<Rightarrow> (case patient_ids_of resp of Inl e \<Rightarrow> [] | Inr ps \<Rightarrow> ps),
               \<lparr>world = w, calls = calls s @ [patients_url limit]\<rparr>)"
    using assms t
    by (auto simp: get_all_patients_def get_all_patients_try_def requests_get_def
        split: sum.splits)
  have first: "ids = []
          \<or> (\<exists>resp kvs es. fst (T (patients_url limit) (world s)) = Inr resp
               \<and> body resp = Some (JObj kvs) \<and> map_of kvs ''entry'' = Some (JArr es)
               \<and> map Inr ids = map entry_id es)"
  proof (cases r)
    case (Inl e)
    then show ?thesis using res by simp
  next
    case (Inr resp)
    show ?thesis
    proof (cases "patient_ids_of resp")
      case (Inl e)
      then show ?thesis using res Inr by simp
    next
      case (Inr ps)
      then have "ids = ps" using res \<open>r = Inr resp\<close> by simp
      then show ?thesis using patient_ids_of_cases [OF Inr] t \<open>r = Inr resp\<close> by auto
    qed
  qed
  have second: "map Inr ids = map entry_id es"
    if h: "fst (T (patients_url limit) (world s)) = Inr resp"
      "\<not> (400 \<le> status_code resp \<and> status_code resp < 600)"
      "body resp = Some (JObj kvs)" "map_of kvs ''entry'' = Some (JArr es)"
      "\<forall>e\<in>set es. \<exists>i. entry_id e = Inr i" for resp kvs es
  proof -
    obtain ps where ps: "collect_ids es [] = Inr ps"
      using collect_ids_total [OF h(5)] by blast
    have has: "''entry'' \<in> fst ` set kvs"
      using h(4) by (auto dest: map_of_SomeD intro: rev_image_eqI)
    have "patient_ids_of resp = Inr ps"
      using h(2,3,4) ps has
      by (simp add: patient_ids_of_def raise_for_status_def response_json_def bind_exn_def)
    then have "ids = ps" using res h(1) t by simp
    then show ?thesis using collect_ids_map [OF ps] by simp
  qed
  show ?thesis using first second by blast
qed

text \<open>
  C8 as stated fails: a server that lists three patients whatever \<open>_count\<close> says makes
  \<open>get_all_patients 1\<close> return three identifiers.
\<close>
theorem get_all_patients_limit_counterexample:
  "get_all_patients demo_server 1 net0
     = ([JStr ''p1'', JStr ''p2'', JStr ''p3''], \<lparr>world = (), calls = [patients_url 1]\<rparr>)
   \<and> \<not> int (length (fst (get_all_patients demo_server 1 net0))) \<le> 1"
  by (simp add: demo_enumerate net0_def)

theorem get_all_patients_ids_witness:
  "get_all_patients demo_server 1 net0
     = ([JStr ''p1'', JStr ''p2'', JStr ''p3''], \<lparr>world = (), calls = [patients_url 1]\<rparr>)
   \<and> map Inr [JStr ''p1'', JStr ''p2'', JStr ''p3'']
     = map entry_id [patient_entry ''p1'', patient_entry ''p2'', patient_entry ''p3'']"
proof -
  have a: "get_all_patients demo_server 1 net0
     = ([JStr ''p1'', JStr ''p2'', JStr ''p3''], \<lparr>world = (), calls = [patients_url 1]\<rparr>)"
    by (simp add: demo_enumerate net0_def)
  have "map Inr [JStr ''p1'', JStr ''p2'', JStr ''p3'']
     = map entry_id [patient_entry ''p1'', patient_entry ''p2'', patient_entry ''p3'']"
    by (rule get_all_patients_ids [OF a, THEN conjunct2, rule_format,
          of "\<lparr>status_code = 200,
               body = Some (fhir_bundle [patient_entry ''p1'', patient_entry ''p2'',
                                         patient_entry ''p3''])\<rparr>"
             "[(''resourceType'', JStr ''Bundle''),
               (''entry'', JArr [patient_entry ''p1'', patient_entry ''p2'',
                                 patient_entry ''p3''])]"])
       (simp add: net0_def patients_url_def ok_def fhir_bundle_def entry_id_def bind_exn_def
          patient_entry_def patient_resource_def)
  then show ?thesis using a by blast
qed

text \<open>
  C7, as the code has it. (1) When the request raises, or the response has a status from
  400 to 599, or its body does not decode, or the extraction of the identifiers raises,
  \<open>get_all_patients\<close> returns the empty list, after that one request. (2) A response
  with any other status is parsed exactly like the same response with status 200. (3) So
  with a status outside 400..599, a body that is an object with an \<open>entry\<close> list and
  entries that all have a resource with an id, the result is the identifier of every
  entry, in order. The function has no exceptional result: \<open>except Exception\<close> turns
  every exception into the empty list.
\<close>
theorem get_all_patients_failure:
  assumes "requests_get T (patients_url limit) s = (r, s')"
  shows "((\<exists>e. r = Inl e)
          \<or> (\<exists>resp. r = Inr resp
               \<and> ((400 \<le> status_code resp \<and> status_code resp < 600)
                  \<or> body resp = None
                  \<or> (\<exists>e. patient_ids_of resp = Inl e)))
          \<longrightarrow> get_all_patients T limit s = ([], s'))
       \<and> (\<forall>resp. r = Inr resp \<and> \<not> (400 \<le> status_code resp \<and> status_code resp < 600)
            \<longrightarrow> get_all_patients T limit s
                  = (case patient_ids_of (resp\<lparr>status_code := 200\<rparr>) of
                       Inl e \<Rightarrow> [] | Inr patient_ids \<Rightarrow> patient_ids, s'))
       \<and> (\<forall>resp kvs es. r = Inr resp
            \<and> \<not> (400 \<le> status_code resp \<and> status_code resp < 600)
            \<and> body resp = Some (JObj kvs) \<and> map_of kvs ''entry'' = Some (JArr es)
            \<and> (\<forall>e\<in>set es. \<exists>i. entry_id e = Inr i)
            \<longrightarrow> map Inr (fst (get_all_patients T limit s)) = map entry_id es
                \<and> snd (get_all_patients T limit s) = s')"
proof -
  have res: "get_all_patients T limit s
      = (case r of Inl e \<Rightarrow> []
         | Inr resp \<Rightarrow> (case patient_ids_of resp of Inl e \<Rightarrow> [] | Inr ps \<Rightarrow> ps), s')"
    using assms
    by (auto simp: get_all_patients_def get_all_patients_try_def split: sum.splits)
  have err: "\<exists>e. patient_ids_of resp = Inl e"
    if "400 \<le> status_code resp \<and> status_code resp < 600" for resp
    using that by (simp add: patient_ids_of_def raise_for_status_def bind_exn_def)
  have undec: "\<exists>e. patient_ids_of resp = Inl e" if "body resp = None" for resp
    using that
    by (simp add: patient_ids_of_def raise_for_status_def response_json_def bind_exn_def)
  have first: "(\<exists>e. r = Inl e)
          \<or> (\<exists>resp. r = Inr resp
               \<and> ((400 \<le> status_code resp \<and> status_code resp < 600)
                  \<or> body resp = None
                  \<or> (\<exists>e. patient_ids_of resp = Inl e)))
          \<longrightarrow> get_all_patients T limit s = ([], s')"
  proof
    assume "(\<exists>e. r = Inl e)
          \<or> (\<exists>resp. r = Inr resp
               \<and> ((400 \<le> status_code resp \<and> status_code resp < 600)
                  \<or> body resp = None
                  \<or> (\<exists>e. patient_ids_of resp = Inl e)))"
    then consider e where "r = Inl e"
      | resp e where "r = Inr resp" "patient_ids_of resp = Inl e"
      using err undec by blast
    then show "get_all_patients T limit s = ([], s')"
      by cases (simp_all add: res)
  qed
  have same: "patient_ids_of resp = patient_ids_of (resp\<lparr>status_code := 200\<rparr>)"
    if "\<not> (400 \<le> status_code resp \<and> status_code resp < 600)" for resp
    using that by (auto simp: patient_ids_of_def raise_for_status_def response_json_def)
  have second: "\<forall>resp. r = Inr resp \<and> \<not> (400 \<le> status_code resp \<and> status_code resp < 600)
            \<longrightarrow> get_all_patients T limit s
                  = (case patient_ids_of (resp\<lparr>status_code := 200\<rparr>) of
                       Inl e \<Rightarrow> [] | Inr patient_ids \<Rightarrow> patient_ids, s')"
  proof (intro allI impI)
    fix resp
    assume h: "r = Inr resp \<and> \<not> (400 \<le> status_code resp \<and> status_code resp < 600)"
    show "get_all_patients T limit s
                  = (case patient_ids_of (resp\<lparr>status_code := 200\<rparr>) of
                       Inl e \<Rightarrow> [] | Inr patient_ids \<Rightarrow> patient_ids, s')"
      using same [OF conjunct2 [OF h]] conjunct1 [OF h] by (simp add: res)
  qed
  have third: "\<forall>resp kvs es. r = Inr resp
            \<and> \<not> (400 \<le> status_code resp \<and> status_code resp < 600)
            \<and> body resp = Some (JObj kvs) \<and> map_of kvs ''entry'' = Some (JArr es)
            \<and> (\<forall>e\<in>set es. \<exists>i. entry_id e = Inr i)
            \<longrightarrow> map Inr (fst (get_all_patients T limit s)) = map entry_id es
                \<and> snd (get_all_patients T limit s) = s'"
  proof (intro allI impI)
    fix resp kvs es
    assume h: "r = Inr resp
            \<and> \<not> (400 \<le> status_code resp \<and> status_code resp < 600)
            \<and> body resp = Some (JObj kvs) \<and> map_of kvs ''entry'' = Some (JArr es)
            \<and> (\<forall>e\<in>set es. \<exists>i. entry_id e = Inr i)"
    then have ok: "\<forall>e\<in>set es. \<exists>i. entry_id e = Inr i" by blast
    obtain ps where ps: "collect_ids es [] = Inr ps"
      using collect_ids_total [OF ok] by blast
    have has: "''entry'' \<in> fst ` set kvs"
      using h by (auto dest: map_of_SomeD intro: rev_image_eqI)
    have "patient_ids_of resp = Inr ps"
      using h ps has
      by (simp add: patient_ids_of_def raise_for_status_def response_json_def bind_exn_def)
    then have "get_all_patients T limit s = (ps, s')" using h by (simp add: res)
    then show "map Inr (fst (get_all_patients T limit s)) = map entry_id es
                \<and> snd (get_all_patients T limit s) = s'"
      using collect_ids_map [OF ps] by simp
  qed
  show ?thesis by (rule conjI [OF first conjI [OF second third]])
qed

theorem get_all_patients_failure_witness:
  "get_all_patients unreachable_server 50 net0 = ([], \<lparr>world = (), calls = [patients_url 50]\<rparr>)
   \<and> get_all_patients not_found_server 50 net0 = ([], \<lparr>world = (), calls = [patients_url 50]\<rparr>)
   \<and> get_all_patients garbled_server 50 net0 = ([], \<lparr>world = (), calls = [patients_url 50]\<rparr>)
   \<and> map Inr (fst (get_all_patients choices_server 50 net0)) = map entry_id [patient_entry ''p1'']
   \<and> map entry_id [patient_entry ''p1''] = [Inr (JStr ''p1'')]"
proof -
  have a: "requests_get unreachable_server (patients_url 50) net0
      = (Inl RequestException, \<lparr>world = (), calls = [patients_url 50]\<rparr>)"
    by (simp add: requests_get_def unreachable_server_def net0_def)
  have b: "requests_get not_found_server (patients_url 50) net0
      = (Inr \<lparr>status_code = 404, body = Some (JObj [])\<rparr>,
         \<lparr>world = (), calls = [patients_url 50]\<rparr>)"
    by (simp add: requests_get_def not_found_server_def net0_def)
  have c: "requests_get garbled_server (patients_url 50) net0
      = (Inr \<lparr>status_code = 200, body = None\<rparr>, \<lparr>world = (), calls = [patients_url 50]\<rparr>)"
    by (simp add: requests_get_def garbled_server_def net0_def)
  have d: "requests_get choices_server (patients_url 50) net0
      = (Inr \<lparr>status_code = 300,
              body = Some (JObj [(''resourceType'', JStr ''Bundle''),
                                 (''entry'', JArr [patient_entry ''p1''])])\<rparr>,
         \<lparr>world = (), calls = [patients_url 50]\<rparr>)"
    by (simp add: requests_get_def choices_server_def net0_def fhir_bundle_def)
  have ids: "map entry_id [patient_entry ''p1''] = [Inr (JStr ''p1'')]"
    by (simp add: entry_id_def bind_exn_def patient_entry_def patient_resource_def)
  have w1: "get_all_patients unreachable_server 50 net0
      = ([], \<lparr>world = (), calls = [patients_url 50]\<rparr>)"
    by (rule get_all_patients_failure [OF a, THEN conjunct1, THEN mp]) simp
  have w2: "get_all_patients not_found_server 50 net0
      = ([], \<lparr>world = (), calls = [patients_url 50]\<rparr>)"
    by (rule get_all_patients_failure [OF b, THEN conjunct1, THEN mp]) simp
  have w3: "get_all_patients garbled_server 50 net0
      = ([], \<lparr>world = (), calls = [patients_url 50]\<rparr>)"
    by (rule get_all_patients_failure [OF c, THEN conjunct1, THEN mp]) simp
  have w4: "map Inr (fst (get_all_patients choices_server 50 net0))
              = map entry_id [patient_entry ''p1'']"
    by (rule get_all_patients_failure [OF d, THEN conjunct2, THEN conjunct2, rule_format,
          where kvs = "[(''resourceType'', JStr ''Bundle''),
                        (''entry'', JArr [patient_entry ''p1''])]"
            and resp = "\<lparr>status_code = 300,
              body = Some (JObj [(''resourceType'', JStr ''Bundle''),
                                 (''entry'', JArr [patient_entry ''p1''])])\<rparr>",
          THEN conjunct1])
       (simp add: entry_id_def bind_exn_def patient_entry_def patient_resource_def)
  show ?thesis by (rule conjI [OF w1 conjI [OF w2 conjI [OF w3 conjI [OF w4 ids]]]])
qed

end
